theory Spec2Isabelle
  imports Main
begin

section \<open>JavaScript values used by the table plugin\<close>

text \<open>
  A JavaScript string is a sequence of UTF-16 code units; \<open>charCodeAt\<close> returns the
  code unit as a number, or \<open>NaN\<close> outside the string. Source text is therefore a list
  of code units (natural numbers). A JavaScript number that may be \<open>NaN\<close> or
  \<open>undefined\<close> (a read outside an array) is an \<open>int option\<close>: \<open>None\<close> stands for
  both, since the plugin only adds to such a value (the sum is \<open>NaN\<close>) or compares it
  (every comparison with \<open>NaN\<close> or \<open>undefined\<close> is false).
\<close>

type_synonym jsstring = "nat list"
type_synonym num = "int option"

definition codes :: "string \<Rightarrow> jsstring" where
  "codes s = map of_char s"

definition num_add :: "num \<Rightarrow> num \<Rightarrow> num" where
  "num_add a b = (case a of None \<Rightarrow> None | Some x \<Rightarrow> (case b of None \<Rightarrow> None | Some y \<Rightarrow> Some (x + y)))"

definition num_sub :: "num \<Rightarrow> num \<Rightarrow> num" where
  "num_sub a b = (case a of None \<Rightarrow> None | Some x \<Rightarrow> (case b of None \<Rightarrow> None | Some y \<Rightarrow> Some (x - y)))"

definition num_gt :: "num \<Rightarrow> num \<Rightarrow> bool" where
  "num_gt a b = (case a of None \<Rightarrow> False | Some x \<Rightarrow> (case b of None \<Rightarrow> False | Some y \<Rightarrow> x > y))"

definition num_le :: "num \<Rightarrow> num \<Rightarrow> bool" where
  "num_le a b = (case a of None \<Rightarrow> False | Some x \<Rightarrow> (case b of None \<Rightarrow> False | Some y \<Rightarrow> x \<le> y))"

definition num_lt :: "num \<Rightarrow> num \<Rightarrow> bool" where
  "num_lt a b = (case a of None \<Rightarrow> False | Some x \<Rightarrow> (case b of None \<Rightarrow> False | Some y \<Rightarrow> x < y))"

text \<open>\<open>src.charCodeAt(i)\<close> for an integer \<open>i\<close>: \<open>None\<close> is \<open>NaN\<close>.\<close>

definition charCodeAt :: "jsstring \<Rightarrow> int \<Rightarrow> nat option" where
  "charCodeAt src i = (if 0 \<le> i \<and> i < int (length src) then Some (src ! nat i) else None)"

text \<open>
  \<open>src.slice(pos)\<close>: a negative start counts from the end of the string, a start
  beyond the end gives the empty string, and \<open>NaN\<close> is read as 0.
\<close>

definition slice_from :: "jsstring \<Rightarrow> num \<Rightarrow> jsstring" where
  "slice_from src pos =
     (case pos of
        None \<Rightarrow> src
      | Some p \<Rightarrow> if p < 0 then drop (nat (int (length src) + p)) src else drop (nat p) src)"

text \<open>\<open>src.slice(a, b)\<close> for integers \<open>0 \<le> a\<close> and \<open>0 \<le> b\<close>.\<close>

definition slice_between :: "jsstring \<Rightarrow> int \<Rightarrow> int \<Rightarrow> jsstring" where
  "slice_between src a b = drop (nat a) (take (nat b) src)"

section \<open>Sentinel detectors\<close>

definition pipeChar :: nat where "pipeChar = 0x7c"
definition apostropheChar :: nat where "apostropheChar = 0x60"
definition hashChar :: nat where "hashChar = 0x23"
definition backSlashChar :: nat where "backSlashChar = 0x5c"
definition curlyBraceOpen :: nat where "curlyBraceOpen = 123"
definition curlyBraceClose :: nat where "curlyBraceClose = 125"
definition dollarChar :: nat where "dollarChar = 36"

text \<open>
  The loop of \<open>checkCharsOrder\<close>: \<open>i\<close> runs over the expected code units, and the
  first position where the sliced source differs (or has ended) gives \<open>false\<close>.
\<close>

fun checkCharsLoop :: "nat list \<Rightarrow> jsstring \<Rightarrow> nat \<Rightarrow> bool" where
  "checkCharsLoop [] currentSrc i = True"
| "checkCharsLoop (orderSymbol # rest) currentSrc i =
     (if charCodeAt currentSrc (int i) \<noteq> Some orderSymbol then False
      else checkCharsLoop rest currentSrc (Suc i))"

definition checkCharsOrder :: "nat list \<Rightarrow> jsstring \<Rightarrow> num \<Rightarrow> bool" where
  "checkCharsOrder order src pos = checkCharsLoop order (slice_from src pos) 0"

definition liquidVariableStartOrder :: "nat list" where
  "liquidVariableStartOrder = [curlyBraceOpen, curlyBraceOpen]"
definition isLiquidVariableStart :: "jsstring \<Rightarrow> num \<Rightarrow> bool" where
  "isLiquidVariableStart src pos = checkCharsOrder liquidVariableStartOrder src pos"

definition liquidVariableEndOrder :: "nat list" where
  "liquidVariableEndOrder = [curlyBraceClose, curlyBraceClose]"
definition isLiquidVariableEnd :: "jsstring \<Rightarrow> num \<Rightarrow> bool" where
  "isLiquidVariableEnd src pos = checkCharsOrder liquidVariableEndOrder src pos"

definition codeBlockOrder :: "nat list" where
  "codeBlockOrder = [apostropheChar, apostropheChar, apostropheChar]"
definition isCodeBlockOrder :: "jsstring \<Rightarrow> num \<Rightarrow> bool" where
  "isCodeBlockOrder src pos = checkCharsOrder codeBlockOrder src pos"

definition mathBlockOrder :: "nat list" where
  "mathBlockOrder = [dollarChar, dollarChar]"
definition isMathBlockOrder :: "jsstring \<Rightarrow> num \<Rightarrow> bool" where
  "isMathBlockOrder src pos = checkCharsOrder mathBlockOrder src pos"

definition openTableOrder :: "nat list" where
  "openTableOrder = [hashChar, pipeChar]"
definition isOpenTableOrder :: "jsstring \<Rightarrow> num \<Rightarrow> bool" where
  "isOpenTableOrder src pos = checkCharsOrder openTableOrder src pos"

text \<open>
  \<open>isEscaped\<close>: \<open>pos\<close> walks left from \<open>start - 1\<close> while it reads a backslash;
  \<open>isEscapedLoop\<close> returns where it stops. Reading left of the string gives
  \<open>NaN\<close>, which ends the loop.
\<close>

function isEscapedLoop :: "jsstring \<Rightarrow> int \<Rightarrow> int" where
  "isEscapedLoop src pos =
     (if charCodeAt src pos = Some backSlashChar then isEscapedLoop src (pos - 1) else pos)"
  by pat_completeness auto
termination
  by (relation "measure (\<lambda>(src, pos). nat (pos + 1))")
     (auto simp: charCodeAt_def split: if_splits)

definition isEscaped :: "jsstring \<Rightarrow> int \<Rightarrow> bool" where
  "isEscaped src pos = (let start = pos in (start - isEscapedLoop src (pos - 1)) mod 2 = 0)"

definition notEscaped :: "jsstring \<Rightarrow> int \<Rightarrow> bool" where
  "notEscaped src pos = (\<not> isEscaped src pos)"

text \<open>
  The detectors are also reached with a \<open>NaN\<close> position (the cursor after it has run
  off the line index). There \<open>checkCharsOrder\<close> reads the start of the source, and
  when it succeeds the code unit at index 0 is a pipe, so the loop of \<open>isEscaped\<close>
  (which reads \<open>charCodeAt(NaN)\<close>, the code unit at index 0) stops at once and
  \<open>(NaN - NaN) % 2 === 0\<close> is false: the marker is not escaped.
\<close>

definition notEscapedAt :: "jsstring \<Rightarrow> num \<Rightarrow> bool" where
  "notEscapedAt src pos = (case pos of None \<Rightarrow> True | Some p \<Rightarrow> notEscaped src p)"

definition rowStartOrder :: "nat list" where
  "rowStartOrder = [pipeChar, pipeChar]"
definition isRowOrder :: "jsstring \<Rightarrow> num \<Rightarrow> bool" where
  "isRowOrder src pos = (checkCharsOrder rowStartOrder src pos \<and> notEscapedAt src pos)"

definition cellStartOrder :: "nat list" where
  "cellStartOrder = [pipeChar]"
definition isCellOrder :: "jsstring \<Rightarrow> num \<Rightarrow> bool" where
  "isCellOrder src pos =
     (checkCharsOrder cellStartOrder src pos \<and> notEscapedAt src pos \<and> \<not> isRowOrder src pos)"

definition closeTableOrder :: "nat list" where
  "closeTableOrder = [pipeChar, hashChar]"
definition isCloseTableOrder :: "jsstring \<Rightarrow> num \<Rightarrow> bool" where
  "isCloseTableOrder src pos = checkCharsOrder closeTableOrder src pos"

text \<open>
  The specification's measure of escaping: the number of consecutive backslashes
  immediately before position \<open>pos\<close>, counted by reading the code units at
  \<open>pos - 1\<close>, \<open>pos - 2\<close>, ... down to index 0.
\<close>

definition backslashesBefore :: "jsstring \<Rightarrow> int \<Rightarrow> nat" where
  "backslashesBefore src pos =
     length (takeWhile (\<lambda>i. charCodeAt src (int i) = Some backSlashChar) (rev [0..<nat pos]))"

section \<open>Span skippers\<close>

text \<open>The parameter \<open>max\<close> of the source is \<open>maxPos\<close> here.\<close>

record SkipInlineResult =
  skip_end :: int
  skip_steps :: int

text \<open>
  The two "scan marker length" loops of \<open>skipInlineCode\<close>: the position moves right
  while it is below \<open>max\<close> and reads a backtick.
\<close>

function scanMarker :: "jsstring \<Rightarrow> num \<Rightarrow> int \<Rightarrow> int" where
  "scanMarker src maxPos pos =
     (if num_lt (Some pos) maxPos \<and> charCodeAt src pos = Some apostropheChar
      then scanMarker src maxPos (pos + 1) else pos)"
  by pat_completeness auto
termination
  by (relation "measure (\<lambda>(src, maxPos, pos). nat (int (length src) - pos))")
     (auto simp: charCodeAt_def split: if_splits)

declare scanMarker.simps [simp del]

text \<open>
  \<open>src.indexOf(c, from)\<close> for a single code unit \<open>c\<close>: the first index at or after
  \<open>from\<close> (a negative \<open>from\<close> is read as 0) that holds \<open>c\<close>, or -1.
\<close>

definition indexOf :: "jsstring \<Rightarrow> nat \<Rightarrow> int \<Rightarrow> int" where
  "indexOf src c from =
     (case find (\<lambda>i. src ! i = c) [nat from..<length src] of
        None \<Rightarrow> -1
      | Some i \<Rightarrow> int i)"

lemma indexOf_found:
  "indexOf src c from \<noteq> -1 \<Longrightarrow>
   from \<le> indexOf src c from \<and> 0 \<le> indexOf src c from \<and> indexOf src c from < int (length src)"
  by (auto simp: indexOf_def find_Some_iff split: option.splits)

lemma scanMarker_ge: "pos \<le> scanMarker src maxPos pos"
proof (induction src maxPos pos rule: scanMarker.induct)
  case (1 src maxPos pos)
  show ?case
  proof (cases "num_lt (Some pos) maxPos \<and> charCodeAt src pos = Some apostropheChar")
    case True
    then have "pos + 1 \<le> scanMarker src maxPos (pos + 1)" using 1 by simp
    moreover have "scanMarker src maxPos pos = scanMarker src maxPos (pos + 1)"
      using True by (subst scanMarker.simps) simp
    ultimately show ?thesis by simp
  next
    case False
    then show ?thesis by (subst scanMarker.simps) auto
  qed
qed

text \<open>
  The search loop of \<open>skipInlineCode\<close>: \<open>indexOf\<close> looks for the next backtick in
  the whole source, the run that starts there is measured up to \<open>max\<close>, and a run as
  long as the opener closes the span.
\<close>

function closerLoop :: "jsstring \<Rightarrow> num \<Rightarrow> int \<Rightarrow> nat \<Rightarrow> int \<Rightarrow> SkipInlineResult option" where
  "closerLoop src maxPos start openerLength matchEnd =
     (let matchStart = indexOf src apostropheChar matchEnd in
      if matchStart = -1 then None
      else
        let matchEnd' = scanMarker src maxPos (matchStart + 1);
            closerLength = matchEnd' - matchStart
        in if closerLength = int openerLength
           then Some \<lparr>skip_end = matchEnd', skip_steps = matchEnd' - start\<rparr>
           else closerLoop src maxPos start openerLength matchEnd')"
  by pat_completeness auto
termination
proof (relation "measure (\<lambda>(src, maxPos, start, openerLength, matchEnd). nat (int (length src) - matchEnd))")
  show "wf (measure (\<lambda>(src, maxPos, start, openerLength, matchEnd). nat (int (length src) - matchEnd)))"
    by simp
next
  fix src :: jsstring and maxPos :: num and start :: int and openerLength :: nat
    and matchEnd matchStart matchEnd' closerLength :: int
  assume a: "matchStart = indexOf src apostropheChar matchEnd" "matchStart \<noteq> -1"
    "matchEnd' = scanMarker src maxPos (matchStart + 1)"
  from a(1,2) have "matchEnd \<le> matchStart" "matchStart < int (length src)"
    using indexOf_found[of src apostropheChar matchEnd] by auto
  moreover have "matchStart + 1 \<le> matchEnd'"
    using a(3) scanMarker_ge by simp
  ultimately show "((src, maxPos, start, openerLength, matchEnd'), (src, maxPos, start, openerLength, matchEnd))
      \<in> measure (\<lambda>(src, maxPos, start, openerLength, matchEnd). nat (int (length src) - matchEnd))"
    by simp
qed

declare closerLoop.simps [simp del]

definition skipInlineCode :: "jsstring \<Rightarrow> int \<Rightarrow> num \<Rightarrow> SkipInlineResult option" where
  "skipInlineCode src pos maxPos =
     (if charCodeAt src pos \<noteq> Some apostropheChar then None
      else if pos > 0 \<and> isEscaped src pos then None
      else
        let start = pos;
            pos' = scanMarker src maxPos pos;
            marker = slice_between src start pos';
            openerLength = length marker
        in closerLoop src maxPos start openerLength pos')"

text \<open>
  \<open>nextChar\<close> of \<open>skipInlineMath\<close>: the code unit after index \<open>i\<close> when
  \<open>i + 1 <= max\<close>, otherwise -1. Both -1 and \<open>NaN\<close> fail every test the function
  makes on it, so both are \<open>None\<close>.
\<close>

definition nextCharAt :: "jsstring \<Rightarrow> num \<Rightarrow> int \<Rightarrow> nat option" where
  "nextCharAt src maxPos i = (if num_le (Some (i + 1)) maxPos then charCodeAt src (i + 1) else None)"

definition isDigitCode :: "nat option \<Rightarrow> bool" where
  "isDigitCode c = (case c of None \<Rightarrow> False | Some n \<Rightarrow> 0x30 \<le> n \<and> n \<le> 0x39)"

text \<open>
  The search loop of \<open>skipInlineMath\<close>. The loop condition is the truthiness of the
  index found: 0 leaves the loop (and the function returns \<open>false\<close>), -1 does not and
  is caught inside.
\<close>

function mathLoop :: "jsstring \<Rightarrow> num \<Rightarrow> int \<Rightarrow> int \<Rightarrow> SkipInlineResult option" where
  "mathLoop src maxPos start match0 =
     (let match = indexOf src dollarChar match0 in
      if match = 0 then None
      else if match = -1 \<or> num_gt (Some match) maxPos then None
      else if isEscaped src match then mathLoop src maxPos start (match + 1)
      else
        let prevChar = charCodeAt src (match - 1);
            nextChar = nextCharAt src maxPos match
        in if prevChar = Some 0x20 \<or> prevChar = Some 0x09 \<or> isDigitCode nextChar
           then None
           else Some \<lparr>skip_end = match + 1, skip_steps = match + 1 - start\<rparr>)"
  by pat_completeness auto
termination
proof (relation "measure (\<lambda>(src, maxPos, start, match0). nat (int (length src) - match0))")
  show "wf (measure (\<lambda>(src, maxPos, start, match0). nat (int (length src) - match0)))"
    by simp
next
  fix src :: jsstring and maxPos :: num and start match0 match :: int
  assume a: "match = indexOf src dollarChar match0" "\<not> (match = -1 \<or> num_gt (Some match) maxPos)"
  then have "match0 \<le> match" "match < int (length src)"
    using indexOf_found[of src dollarChar match0] by auto
  then show "((src, maxPos, start, match + 1), (src, maxPos, start, match0))
      \<in> measure (\<lambda>(src, maxPos, start, match0). nat (int (length src) - match0))"
    by simp
qed

declare mathLoop.simps [simp del]

definition skipInlineMath :: "jsstring \<Rightarrow> int \<Rightarrow> num \<Rightarrow> SkipInlineResult option" where
  "skipInlineMath src pos maxPos =
     (if charCodeAt src pos \<noteq> Some dollarChar then None
      else if pos > 0 \<and> \<not> notEscaped src pos then None
      else
        let nextChar = nextCharAt src maxPos pos in
        if nextChar = Some 0x20 \<or> nextChar = Some 0x09 then None
        else if nextChar = Some dollarChar then Some \<lparr>skip_end = pos + 2, skip_steps = 2\<rparr>
        else
          let start = pos + 1 in mathLoop src maxPos start start)"

text \<open>
  The specification's notions for the inline math span: the first unescaped dollar
  sign at or after an index, whitespace as the function tests it (space or tab), and
  a dollar sign that the specification accepts as a closer for the one at \<open>p\<close>:
  unescaped, not after whitespace, not before a digit, at or before \<open>max\<close>.
\<close>

definition firstUnescapedDollar :: "jsstring \<Rightarrow> int \<Rightarrow> int option" where
  "firstUnescapedDollar str from =
     map_option int
       (find (\<lambda>i. str ! i = dollarChar \<and> \<not> isEscaped str (int i)) [nat from..<length str])"

definition isSpaceOrTab :: "nat option \<Rightarrow> bool" where
  "isSpaceOrTab c = (c = Some 0x20 \<or> c = Some 0x09)"

definition validMathCloser :: "jsstring \<Rightarrow> int \<Rightarrow> num \<Rightarrow> int \<Rightarrow> bool" where
  "validMathCloser str p maxPos m =
     (p < m \<and> num_le (Some m) maxPos \<and> charCodeAt str m = Some dollarChar \<and> \<not> isEscaped str m
      \<and> \<not> isSpaceOrTab (charCodeAt str (m - 1)) \<and> \<not> isDigitCode (nextCharAt str maxPos m))"

section \<open>The host state and the cursor\<close>

text \<open>
  A JavaScript array of numbers is a list whose entries may be \<open>undefined\<close>; a read
  outside it gives \<open>undefined\<close>, and a write outside it extends it, leaving holes
  (which read as \<open>undefined\<close>).
\<close>

definition arr_get :: "num list \<Rightarrow> nat \<Rightarrow> num" where
  "arr_get xs i = (if i < length xs then xs ! i else None)"

definition arr_set :: "num list \<Rightarrow> nat \<Rightarrow> num \<Rightarrow> num list" where
  "arr_set xs i v =
     (if i < length xs then xs[i := v] else xs @ replicate (i - length xs) None @ [v])"

text \<open>
  An element of the host's output stream (markdown-it's \<open>Token\<close>), with the fields
  the plugin reads or writes. \<open>tok_map\<close> is the line range, \<open>attrs\<close> the attribute
  list in insertion order, \<open>markForDeletion\<close> the flag kept in \<open>meta\<close>.
\<close>

record Token =
  tok_type :: string
  tag :: string
  nesting :: int
  level :: int
  tok_map :: "(int \<times> int) option"
  attrs :: "(string \<times> string) list"
  hidden :: bool
  content :: string
  markup :: string
  markForDeletion :: bool

text \<open>
  The host's block state (markdown-it's \<open>StateBlock\<close>), with the fields the plugin
  reads or writes: the source, the line index (\<open>bMarks\<close>, \<open>tShift\<close>, \<open>eMarks\<close>),
  \<open>lineMax\<close>, the current line, the output stream and the nesting depth that
  \<open>push\<close> maintains.
\<close>

record StateBlock =
  src :: jsstring
  bMarks :: "num list"
  eMarks :: "num list"
  tShift :: "num list"
  lineMax :: int
  state_line :: int
  tokens :: "Token list"
  state_level :: int

record Stats =
  line :: nat
  pos :: num

record StateIterator =
  it_pos :: num
  it_line :: nat
  it_lineEnds :: num

definition newStateIterator :: "StateBlock \<Rightarrow> num \<Rightarrow> nat \<Rightarrow> StateIterator" where
  "newStateIterator state p l =
     \<lparr>it_pos = p, it_line = l, it_lineEnds = arr_get (eMarks state) l\<rparr>"

definition stats :: "StateIterator \<Rightarrow> Stats" where
  "stats it = \<lparr>line = it_line it, pos = it_pos it\<rparr>"

text \<open>\<open>state.src[pos]\<close>: \<open>None\<close> is \<open>undefined\<close>.\<close>

definition symbol :: "StateBlock \<Rightarrow> StateIterator \<Rightarrow> nat option" where
  "symbol state it = (case it_pos it of None \<Rightarrow> None | Some p \<Rightarrow> charCodeAt (src state) p)"

text \<open>One pass of the loop in \<open>next\<close>, and \<open>next(steps)\<close> itself.\<close>

definition next1 :: "StateBlock \<Rightarrow> StateIterator \<Rightarrow> StateIterator" where
  "next1 state it =
     (let p = num_add (it_pos it) (Some 1) in
      if num_gt p (it_lineEnds it) then
        let l = it_line it + 1 in
        \<lparr>it_pos = num_add (arr_get (bMarks state) l) (arr_get (tShift state) l),
         it_line = l,
         it_lineEnds = arr_get (eMarks state) l\<rparr>
      else it\<lparr>it_pos := p\<rparr>)"

primrec iter_next :: "StateBlock \<Rightarrow> nat \<Rightarrow> StateIterator \<Rightarrow> StateIterator" where
  "iter_next state 0 it = it"
| "iter_next state (Suc steps) it = iter_next state steps (next1 state it)"

lemma iter_next_funpow: "iter_next state steps it = (next1 state ^^ steps) it"
  by (induction steps arbitrary: it) (simp_all add: funpow_swap1)

section \<open>The table region scanner\<close>

text \<open>
  The plugin options; each is an optional boolean (\<open>None\<close> when the option is not
  given).
\<close>

record YfmTablePluginOptions =
  table_ignoreSplittersInBlockCode :: "bool option"
  table_ignoreSplittersInBlockMath :: "bool option"
  table_ignoreSplittersInInlineCode :: "bool option"
  table_ignoreSplittersInInlineMath :: "bool option"

text \<open>The local variables of \<open>getTableRowPositions\<close>.\<close>

record ScanState =
  iter :: StateIterator
  endOfTable :: "nat option"
  tableLevel :: nat
  currentRow :: "(Stats \<times> Stats) list"
  colStart :: "Stats option"
  rowStart :: "nat option"
  rows :: "(nat \<times> nat \<times> (Stats \<times> Stats) list) list"
  isInsideCode :: bool
  isInsideMath :: bool
  isInsideLiquidVariable :: bool
  rowMap :: "nat \<Rightarrow> bool option"

definition advance :: "StateBlock \<Rightarrow> nat \<Rightarrow> ScanState \<Rightarrow> ScanState" where
  "advance state steps s = s\<lparr>iter := iter_next state steps (iter s)\<rparr>"

text \<open>
  \<open>closeCell\<close> is the statement \<open>if (colStart) currentRow.push([colStart, iter.stats()])\<close>,
  which \<open>addRow\<close> and the cell-marker branch share. A row is pushed when the cell list
  is not empty and \<open>rowStart\<close> is truthy: neither \<open>null\<close> nor 0.
\<close>

definition closeCell :: "ScanState \<Rightarrow> (Stats \<times> Stats) list" where
  "closeCell s =
     (case colStart s of
        None \<Rightarrow> currentRow s
      | Some c \<Rightarrow> currentRow s @ [(c, stats (iter s))])"

definition addRow :: "ScanState \<Rightarrow> ScanState" where
  "addRow s =
     (let cells = closeCell s;
          rows' = (case rowStart s of
                     None \<Rightarrow> rows s
                   | Some r \<Rightarrow>
                       if cells \<noteq> [] \<and> r \<noteq> 0 then rows s @ [(r, it_line (iter s), cells)]
                       else rows s)
      in s\<lparr>rows := rows', currentRow := [], colStart := None, rowStart := None\<rparr>)"

definition toggleCode :: "YfmTablePluginOptions \<Rightarrow> StateBlock \<Rightarrow> ScanState \<Rightarrow> ScanState" where
  "toggleCode opts state s =
     (if table_ignoreSplittersInBlockCode opts \<noteq> Some False
         \<and> \<not> isInsideMath s \<and> isCodeBlockOrder (src state) (it_pos (iter s))
      then advance state (length codeBlockOrder) (s\<lparr>isInsideCode := \<not> isInsideCode s\<rparr>)
      else s)"

definition toggleMath :: "YfmTablePluginOptions \<Rightarrow> StateBlock \<Rightarrow> ScanState \<Rightarrow> ScanState" where
  "toggleMath opts state s =
     (if table_ignoreSplittersInBlockMath opts = Some True
         \<and> \<not> isInsideCode s \<and> isMathBlockOrder (src state) (it_pos (iter s))
      then advance state (length mathBlockOrder) (s\<lparr>isInsideMath := \<not> isInsideMath s\<rparr>)
      else s)"

definition liquidStart :: "StateBlock \<Rightarrow> ScanState \<Rightarrow> ScanState" where
  "liquidStart state s =
     (if \<not> isInsideLiquidVariable s \<and> isLiquidVariableStart (src state) (it_pos (iter s))
      then advance state (length liquidVariableStartOrder) (s\<lparr>isInsideLiquidVariable := True\<rparr>)
      else s)"

definition liquidEnd :: "StateBlock \<Rightarrow> ScanState \<Rightarrow> ScanState" where
  "liquidEnd state s =
     (if isInsideLiquidVariable s \<and> isLiquidVariableEnd (src state) (it_pos (iter s))
      then advance state (length liquidVariableEndOrder) (s\<lparr>isInsideLiquidVariable := False\<rparr>)
      else s)"

text \<open>
  The span skippers as the scanner calls them. At a \<open>NaN\<close> position both return
  \<open>false\<close>: \<open>skipInlineCode\<close> measures an opener of length 0 (\<open>NaN < max\<close> is
  false), which no closing run equals, and \<open>skipInlineMath\<close> searches from \<open>NaN\<close>,
  that is from index 0, where it finds the dollar sign it started on, and 0 is falsy.
\<close>

definition trySkipInlineCode ::
  "YfmTablePluginOptions \<Rightarrow> StateBlock \<Rightarrow> ScanState \<Rightarrow> SkipInlineResult option" where
  "trySkipInlineCode opts state s =
     (if table_ignoreSplittersInInlineCode opts = Some True then
        (case it_pos (iter s) of
           None \<Rightarrow> None
         | Some p \<Rightarrow> skipInlineCode (src state) p (it_lineEnds (iter s)))
      else None)"

definition trySkipInlineMath ::
  "YfmTablePluginOptions \<Rightarrow> StateBlock \<Rightarrow> ScanState \<Rightarrow> SkipInlineResult option" where
  "trySkipInlineMath opts state s =
     (if table_ignoreSplittersInInlineMath opts = Some True then
        (case it_pos (iter s) of
           None \<Rightarrow> None
         | Some p \<Rightarrow> skipInlineMath (src state) p (it_lineEnds (iter s)))
      else None)"

text \<open>
  The branches of the loop body from the fence checks on. The boolean of the result
  says whether the loop is left (\<open>break\<close>).
\<close>

definition closeTable :: "StateBlock \<Rightarrow> ScanState \<Rightarrow> ScanState" where
  "closeTable state s =
     (let s' = advance state (length closeTableOrder) (addRow s)
      in s'\<lparr>endOfTable := Some (it_line (iter s') + 2)\<rparr>)"

definition rowMarker :: "StateBlock \<Rightarrow> ScanState \<Rightarrow> ScanState" where
  "rowMarker state s =
     (let insideRow = rowMap s (tableLevel s);
          s' = (if insideRow = Some True
                then advance state (length rowStartOrder) (addRow s)
                else (let t = advance state (length rowStartOrder) s
                      in t\<lparr>rowStart := Some (it_line (iter t)),
                           colStart := Some (stats (iter t))\<rparr>))
      in s'\<lparr>rowMap := (rowMap s')(tableLevel s \<mapsto> (insideRow \<noteq> Some True))\<rparr>)"

definition cellMarker :: "StateBlock \<Rightarrow> ScanState \<Rightarrow> ScanState" where
  "cellMarker state s =
     (let t = advance state (length cellStartOrder) (s\<lparr>currentRow := closeCell s\<rparr>)
      in t\<lparr>colStart := Some (stats (iter t))\<rparr>)"

definition scanFences :: "StateBlock \<Rightarrow> ScanState \<Rightarrow> ScanState \<times> bool" where
  "scanFences state s =
     (if isOpenTableOrder (src state) (it_pos (iter s))
      then (advance state (length openTableOrder) (s\<lparr>tableLevel := tableLevel s + 1\<rparr>), False)
      else if isCloseTableOrder (src state) (it_pos (iter s))
      then (if tableLevel s = 0 then (closeTable state s, True)
            else (advance state (length closeTableOrder) (s\<lparr>tableLevel := tableLevel s - 1\<rparr>), False))
      else if tableLevel s > 0 then (advance state 1 s, False)
      else if isRowOrder (src state) (it_pos (iter s)) then (rowMarker state s, False)
      else if isCellOrder (src state) (it_pos (iter s)) then (cellMarker state s, False)
      else (advance state 1 s, False))"

definition scanInline ::
  "YfmTablePluginOptions \<Rightarrow> StateBlock \<Rightarrow> ScanState \<Rightarrow> ScanState \<times> bool" where
  "scanInline opts state s =
     (case trySkipInlineCode opts state s of
        Some r \<Rightarrow> (advance state (nat (skip_steps r)) s, False)
      | None \<Rightarrow>
          (case trySkipInlineMath opts state s of
             Some r \<Rightarrow> (advance state (nat (skip_steps r)) s, False)
           | None \<Rightarrow> scanFences state s))"

text \<open>One pass of the \<open>while\<close> loop, after its two exit tests.\<close>

definition scanBody ::
  "YfmTablePluginOptions \<Rightarrow> StateBlock \<Rightarrow> ScanState \<Rightarrow> ScanState \<times> bool" where
  "scanBody opts state s =
     (let s1 = toggleMath opts state (toggleCode opts state s) in
      if isInsideCode s1 \<or> isInsideMath s1 then (advance state 1 s1, False)
      else
        let s2 = liquidEnd state (liquidStart state s1) in
        if isInsideLiquidVariable s2 then (advance state 1 s2, False)
        else scanInline opts state s2)"

definition loopCond :: "StateBlock \<Rightarrow> num \<Rightarrow> ScanState \<Rightarrow> bool" where
  "loopCond state endPosition s =
     (num_le (it_pos (iter s)) endPosition \<and> symbol state (iter s) \<noteq> None)"

text \<open>
  The loop ends: every pass moves the cursor at least once, a move within a line
  brings the cursor nearer to the end of the source, and a move to the next line
  uses up a line of the line index. \<open>linesLeft\<close> and \<open>charsLeft\<close> measure the two.
\<close>

definition linesLeft :: "StateBlock \<Rightarrow> StateIterator \<Rightarrow> nat" where
  "linesLeft state it =
     (case it_lineEnds it of None \<Rightarrow> 0 | Some e \<Rightarrow> Suc (length (eMarks state) - it_line it))"

definition charsLeft :: "StateBlock \<Rightarrow> StateIterator \<Rightarrow> nat" where
  "charsLeft state it =
     (case it_pos it of None \<Rightarrow> 0 | Some p \<Rightarrow> nat (int (length (src state)) - p))"

definition iter_le :: "StateBlock \<Rightarrow> StateIterator \<Rightarrow> StateIterator \<Rightarrow> bool" where
  "iter_le state a b =
     (linesLeft state a < linesLeft state b
      \<or> (linesLeft state a = linesLeft state b \<and> charsLeft state a \<le> charsLeft state b))"

definition iter_lt :: "StateBlock \<Rightarrow> StateIterator \<Rightarrow> StateIterator \<Rightarrow> bool" where
  "iter_lt state a b =
     (linesLeft state a < linesLeft state b
      \<or> (linesLeft state a = linesLeft state b \<and> charsLeft state a < charsLeft state b))"

lemma iter_le_refl: "iter_le state a a"
  by (simp add: iter_le_def)

lemma iter_le_trans: "iter_le state a b \<Longrightarrow> iter_le state b c \<Longrightarrow> iter_le state a c"
  by (auto simp: iter_le_def)

lemma iter_le_lt_trans: "iter_le state a b \<Longrightarrow> iter_lt state b c \<Longrightarrow> iter_lt state a c"
  by (auto simp: iter_le_def iter_lt_def)

lemma next1_le: "iter_le state (next1 state it) it"
  by (auto simp: next1_def iter_le_def linesLeft_def charsLeft_def Let_def num_add_def num_gt_def
      arr_get_def split: option.splits)

lemma next1_lt: "symbol state it \<noteq> None \<Longrightarrow> iter_lt state (next1 state it) it"
  by (auto simp: next1_def iter_lt_def linesLeft_def charsLeft_def Let_def num_add_def num_gt_def
      arr_get_def symbol_def charCodeAt_def split: option.splits if_splits)

lemma iter_next_le: "iter_le state (iter_next state k it) it"
proof (induction k)
  case 0
  show ?case by (simp add: iter_next_funpow iter_le_refl)
next
  case (Suc k)
  have "iter_next state (Suc k) it = next1 state (iter_next state k it)"
    by (simp add: iter_next_funpow)
  then show ?case using Suc next1_le iter_le_trans by metis
qed

lemma iter_next_lt:
  assumes "symbol state it \<noteq> None" and "0 < k"
  shows "iter_lt state (iter_next state k it) it"
proof -
  obtain j where k: "k = Suc j" using assms(2) by (cases k) auto
  have "iter_next state k it = iter_next state j (next1 state it)"
    unfolding k iter_next_funpow by (simp add: funpow_swap1)
  then show ?thesis
    using iter_next_le[of state j "next1 state it"] next1_lt[OF assms(1)] iter_le_lt_trans
    by metis
qed

lemma iter_next_add: "iter_next state j (iter_next state k it) = iter_next state (k + j) it"
  by (simp add: iter_next_funpow funpow_add add.commute)

lemma closerLoop_steps:
  "closerLoop str maxPos start openerLength matchEnd = Some r \<Longrightarrow> start \<le> matchEnd \<Longrightarrow>
   1 \<le> skip_steps r"
proof (induction str maxPos start openerLength matchEnd rule: closerLoop.induct)
  case (1 str maxPos start openerLength matchEnd)
  define matchStart where "matchStart = indexOf str apostropheChar matchEnd"
  define matchEnd' where "matchEnd' = scanMarker str maxPos (matchStart + 1)"
  have found: "matchStart \<noteq> -1"
    using "1.prems"(1) by (subst (asm) closerLoop.simps) (auto simp: matchStart_def Let_def)
  then have ge: "matchEnd \<le> matchStart"
    using indexOf_found[of str apostropheChar matchEnd] by (simp add: matchStart_def)
  have ge': "matchStart + 1 \<le> matchEnd'"
    by (simp add: matchEnd'_def scanMarker_ge)
  show ?case
  proof (cases "matchEnd' - matchStart = int openerLength")
    case True
    then have "r = \<lparr>skip_end = matchEnd', skip_steps = matchEnd' - start\<rparr>"
      using "1.prems"(1) found
      by (subst (asm) closerLoop.simps) (auto simp: matchStart_def matchEnd'_def Let_def)
    then show ?thesis using ge ge' "1.prems"(2) by simp
  next
    case False
    then have "closerLoop str maxPos start openerLength matchEnd' = Some r"
      using "1.prems"(1) found
      by (subst (asm) closerLoop.simps) (auto simp: matchStart_def matchEnd'_def Let_def)
    moreover have "start \<le> matchEnd'" using ge ge' "1.prems"(2) by simp
    ultimately show ?thesis
      using "1.IH"[of matchStart matchEnd' "matchEnd' - matchStart"] found False
      by (simp add: matchStart_def matchEnd'_def)
  qed
qed

lemma skipInlineCode_steps: "skipInlineCode str p maxPos = Some r \<Longrightarrow> 1 \<le> skip_steps r"
  by (auto simp: skipInlineCode_def Let_def split: if_splits
      intro: closerLoop_steps[OF _ scanMarker_ge])

lemma mathLoop_steps:
  "mathLoop str maxPos start match0 = Some r \<Longrightarrow> start \<le> match0 \<Longrightarrow> 1 \<le> skip_steps r"
proof (induction str maxPos start match0 rule: mathLoop.induct)
  case (1 str maxPos start match0)
  define m where "m = indexOf str dollarChar match0"
  have found: "m \<noteq> -1" "m \<noteq> 0" "\<not> num_gt (Some m) maxPos"
    using "1.prems"(1) by (subst (asm) mathLoop.simps; auto simp: m_def Let_def split: if_splits)+
  then have ge: "match0 \<le> m"
    using indexOf_found[of str dollarChar match0] by (simp add: m_def)
  show ?case
  proof (cases "isEscaped str m")
    case True
    then have "mathLoop str maxPos start (m + 1) = Some r"
      using "1.prems"(1) found
      by (subst (asm) mathLoop.simps) (auto simp: m_def Let_def)
    then show ?thesis
      using "1.IH"[of m] found True ge "1.prems"(2) by (simp add: m_def)
  next
    case False
    then have "r = \<lparr>skip_end = m + 1, skip_steps = m + 1 - start\<rparr>"
      using "1.prems"(1) found
      by (subst (asm) mathLoop.simps) (auto simp: m_def Let_def split: if_splits)
    then show ?thesis using ge "1.prems"(2) by simp
  qed
qed

lemma skipInlineMath_steps: "skipInlineMath str p maxPos = Some r \<Longrightarrow> 1 \<le> skip_steps r"
  by (auto simp: skipInlineMath_def Let_def split: if_splits intro: mathLoop_steps)

lemma iter_advance [simp]: "iter (advance state k s) = iter_next state k (iter s)"
  by (simp add: advance_def)

lemma iter_addRow [simp]: "iter (addRow s) = iter s"
  by (simp add: addRow_def Let_def)

lemma toggleCode_iter: "\<exists>k. iter (toggleCode opts state s) = iter_next state k (iter s)"
proof (cases "toggleCode opts state s = s")
  case True
  then show ?thesis by (intro exI[of _ 0]) (simp add: iter_next_funpow)
next
  case False
  then show ?thesis by (intro exI[of _ "length codeBlockOrder"]) (auto simp: toggleCode_def)
qed

lemma toggleMath_iter: "\<exists>k. iter (toggleMath opts state s) = iter_next state k (iter s)"
proof (cases "toggleMath opts state s = s")
  case True
  then show ?thesis by (intro exI[of _ 0]) (simp add: iter_next_funpow)
next
  case False
  then show ?thesis by (intro exI[of _ "length mathBlockOrder"]) (auto simp: toggleMath_def)
qed

lemma liquidStart_iter: "\<exists>k. iter (liquidStart state s) = iter_next state k (iter s)"
proof (cases "liquidStart state s = s")
  case True
  then show ?thesis by (intro exI[of _ 0]) (simp add: iter_next_funpow)
next
  case False
  then show ?thesis
    by (intro exI[of _ "length liquidVariableStartOrder"]) (auto simp: liquidStart_def)
qed

lemma liquidEnd_iter: "\<exists>k. iter (liquidEnd state s) = iter_next state k (iter s)"
proof (cases "liquidEnd state s = s")
  case True
  then show ?thesis by (intro exI[of _ 0]) (simp add: iter_next_funpow)
next
  case False
  then show ?thesis
    by (intro exI[of _ "length liquidVariableEndOrder"]) (auto simp: liquidEnd_def)
qed

lemma scanFences_iter:
  "\<exists>k>0. iter (fst (scanFences state s)) = iter_next state k (iter s)"
proof -
  have "iter (fst (scanFences state s)) = iter_next state (Suc 0) (iter s)
        \<or> iter (fst (scanFences state s)) = iter_next state (Suc (Suc 0)) (iter s)"
    by (simp add: scanFences_def closeTable_def rowMarker_def cellMarker_def Let_def
        openTableOrder_def closeTableOrder_def rowStartOrder_def cellStartOrder_def)
  then show ?thesis by (metis zero_less_Suc)
qed

lemma scanInline_iter:
  "\<exists>k>0. iter (fst (scanInline opts state s)) = iter_next state k (iter s)"
proof (cases "trySkipInlineCode opts state s")
  case (Some r)
  then have "1 \<le> skip_steps r"
    by (auto simp: trySkipInlineCode_def split: if_splits option.splits dest: skipInlineCode_steps)
  then show ?thesis using Some
    by (intro exI[of _ "nat (skip_steps r)"]) (simp add: scanInline_def)
next
  case None
  note c = None
  show ?thesis
  proof (cases "trySkipInlineMath opts state s")
    case (Some r)
    then have "1 \<le> skip_steps r"
      by (auto simp: trySkipInlineMath_def split: if_splits option.splits dest: skipInlineMath_steps)
    then show ?thesis using Some c
      by (intro exI[of _ "nat (skip_steps r)"]) (simp add: scanInline_def)
  next
    case None
    then show ?thesis using c scanFences_iter[of state s] by (simp add: scanInline_def)
  qed
qed

lemma scanBody_iter:
  "\<exists>k>0. iter (fst (scanBody opts state s)) = iter_next state k (iter s)"
proof -
  define s0 where "s0 = toggleCode opts state s"
  define s1 where "s1 = toggleMath opts state s0"
  define s2 where "s2 = liquidEnd state (liquidStart state s1)"
  obtain k0 where k0: "iter s0 = iter_next state k0 (iter s)"
    using toggleCode_iter s0_def by metis
  obtain k1 where "iter s1 = iter_next state k1 (iter s0)"
    using toggleMath_iter s1_def by metis
  then have k1: "iter s1 = iter_next state (k0 + k1) (iter s)"
    by (simp add: k0 iter_next_add)
  obtain j1 where j1: "iter (liquidStart state s1) = iter_next state j1 (iter s1)"
    using liquidStart_iter by metis
  obtain j2 where "iter s2 = iter_next state j2 (iter (liquidStart state s1))"
    using liquidEnd_iter s2_def by metis
  then have k2: "iter s2 = iter_next state (k0 + k1 + j1 + j2) (iter s)"
    by (simp add: j1 k1 iter_next_add)
  consider (fence) "isInsideCode s1 \<or> isInsideMath s1"
    | (liquid) "\<not> (isInsideCode s1 \<or> isInsideMath s1)" "isInsideLiquidVariable s2"
    | (rest) "\<not> (isInsideCode s1 \<or> isInsideMath s1)" "\<not> isInsideLiquidVariable s2"
    by blast
  then show ?thesis
  proof cases
    case fence
    then have "fst (scanBody opts state s) = advance state 1 s1"
      by (simp add: scanBody_def s1_def s0_def Let_def)
    then show ?thesis
      by (intro exI[of _ "k0 + k1 + 1"]) (simp add: k1 iter_next_add)
  next
    case liquid
    then have "fst (scanBody opts state s) = advance state 1 s2"
      by (simp add: scanBody_def s2_def s1_def s0_def Let_def)
    then show ?thesis
      by (intro exI[of _ "k0 + k1 + j1 + j2 + 1"]) (simp add: k2 iter_next_add)
  next
    case rest
    then have eq: "scanBody opts state s = scanInline opts state s2"
      by (simp add: scanBody_def s2_def s1_def s0_def Let_def)
    obtain k where "0 < k" "iter (fst (scanInline opts state s2)) = iter_next state k (iter s2)"
      using scanInline_iter by metis
    then show ?thesis
      by (intro exI[of _ "k0 + k1 + j1 + j2 + k"]) (simp add: eq k2 iter_next_add)
  qed
qed

lemma scanBody_decreases:
  "symbol state (iter s) \<noteq> None \<Longrightarrow> iter_lt state (iter (fst (scanBody opts state s))) (iter s)"
  using scanBody_iter[of opts state s] iter_next_lt by metis

lemma scanLoop_step_decreases:
  assumes "loopCond state endPosition s" and "scanBody opts state s = (s', b)"
  shows "linesLeft state (iter s') < linesLeft state (iter s)
         \<or> (linesLeft state (iter s') = linesLeft state (iter s)
             \<and> charsLeft state (iter s') < charsLeft state (iter s))"
proof -
  have "symbol state (iter s) \<noteq> None" using assms(1) by (simp add: loopCond_def)
  then have "iter_lt state (iter (fst (scanBody opts state s))) (iter s)"
    by (rule scanBody_decreases)
  then show ?thesis using assms(2) by (simp add: iter_lt_def)
qed

function scanLoop ::
  "YfmTablePluginOptions \<Rightarrow> StateBlock \<Rightarrow> num \<Rightarrow> ScanState \<Rightarrow> ScanState" where
  "scanLoop opts state endPosition s =
     (if loopCond state endPosition s then
        (case scanBody opts state s of
           (s', True) \<Rightarrow> s'
         | (s', False) \<Rightarrow> scanLoop opts state endPosition s')
      else s)"
  by pat_completeness auto
termination
  apply (relation "inv_image (less_than <*lex*> less_than)
         (\<lambda>(opts, state, endPosition, s). (linesLeft state (iter s), charsLeft state (iter s)))")
   apply (intro wf_inv_image wf_lex_prod wf_less_than)
  apply (simp only: in_inv_image prod.case in_lex_prod less_than_iff)
  apply (rule scanLoop_step_decreases)
   apply assumption
  apply (erule sym)
  done

declare scanLoop.simps [simp del]

record RowPositions =
  rp_rows :: "(nat \<times> nat \<times> (Stats \<times> Stats) list) list"
  rp_endOfTable :: "nat option"
  rp_pos :: num

definition initialScan :: "StateBlock \<Rightarrow> num \<Rightarrow> nat \<Rightarrow> ScanState" where
  "initialScan state startPosition startLine =
     \<lparr>iter = newStateIterator state
               (num_add startPosition (Some (int (length openTableOrder)))) startLine,
      endOfTable = None,
      tableLevel = 0,
      currentRow = [],
      colStart = None,
      rowStart = None,
      rows = [],
      isInsideCode = False,
      isInsideMath = False,
      isInsideLiquidVariable = False,
      rowMap = Map.empty\<rparr>"

definition getTableRowPositions ::
  "StateBlock \<Rightarrow> num \<Rightarrow> num \<Rightarrow> nat \<Rightarrow> YfmTablePluginOptions \<Rightarrow> RowPositions" where
  "getTableRowPositions state startPosition endPosition startLine opts =
     (let s = scanLoop opts state endPosition (initialScan state startPosition startLine)
      in \<lparr>rp_rows = rows s, rp_endOfTable = endOfTable s, rp_pos = it_pos (iter s)\<rparr>)"

section \<open>The tree compactor\<close>

text \<open>
  \<open>clearTokens\<close>. The first loop collects, for every element from \<open>tableStart\<close> on
  that is marked for deletion, its index and the index of the first later
  \<^verbatim>\<open>yfm_td_close\<close> of the same level (\<open>None\<close> when there is none); \<open>unshift\<close>
  puts each entry in front of the earlier ones. The second loop applies
  \<open>tokens.splice(start, end - start + 1)\<close> to every entry whose \<open>start\<close> and
  \<open>end\<close> are truthy.
\<close>

definition matchingClose :: "Token list \<Rightarrow> nat \<Rightarrow> nat option" where
  "matchingClose toks i =
     find (\<lambda>j. tok_type (toks ! j) = ''yfm_td_close'' \<and> level (toks ! j) = level (toks ! i))
       [Suc i..<length toks]"

definition collectSplices :: "nat \<Rightarrow> Token list \<Rightarrow> (nat \<times> nat option) list" where
  "collectSplices tableStart toks =
     foldl (\<lambda>splices i.
              if markForDeletion (toks ! i) then (i, matchingClose toks i) # splices else splices)
       [] [tableStart..<length toks]"

definition applySplice :: "Token list \<Rightarrow> nat \<times> nat option \<Rightarrow> Token list" where
  "applySplice toks se =
     (case se of
        (start, None) \<Rightarrow> toks
      | (start, Some e) \<Rightarrow>
          if start \<noteq> 0 \<and> e \<noteq> 0 then take start toks @ drop (start + (e - start + 1)) toks
          else toks)"

definition clearTokens :: "nat \<Rightarrow> Token list \<Rightarrow> Token list" where
  "clearTokens tableStart toks = foldl applySplice toks (collectSplices tableStart toks)"




section \<open>The host's output stream\<close>

text \<open>
  markdown-it's \<open>Token\<close> constructor, \<open>StateBlock.push\<close>, \<open>Token.attrSet\<close> and
  \<open>Token.attrJoin\<close>. \<open>push\<close> appends the new element; a closing element
  (\<open>nesting < 0\<close>) takes the level below the current one, an opening element raises
  the level after it. The plugin holds element objects in variables and in
  \<open>cellsMap\<close>; here an element is named by its index in the stream, which the host
  only appends to.
\<close>

definition newToken :: "string \<Rightarrow> string \<Rightarrow> int \<Rightarrow> Token" where
  "newToken ty tg n =
     \<lparr>tok_type = ty, tag = tg, nesting = n, level = 0, tok_map = None, attrs = [],
      hidden = False, content = [], markup = [], markForDeletion = False\<rparr>"

definition push :: "string \<Rightarrow> string \<Rightarrow> int \<Rightarrow> StateBlock \<Rightarrow> StateBlock" where
  "push ty tg n state =
     (let lvl = (if n < 0 then state_level state - 1 else state_level state)
      in state\<lparr>tokens := tokens state @ [(newToken ty tg n)\<lparr>level := lvl\<rparr>],
               state_level := (if n > 0 then lvl + 1 else lvl)\<rparr>)"

fun replaceFirst :: "string \<Rightarrow> (string \<Rightarrow> string) \<Rightarrow> (string \<times> string) list \<Rightarrow> (string \<times> string) list" where
  "replaceFirst name f [] = []"
| "replaceFirst name f ((k, old) # rest) =
     (if k = name then (k, f old) # rest else (k, old) # replaceFirst name f rest)"

definition attrSet :: "string \<Rightarrow> string \<Rightarrow> Token \<Rightarrow> Token" where
  "attrSet name v t =
     (if name \<in> fst ` set (attrs t)
      then t\<lparr>attrs := replaceFirst name (\<lambda>old. v) (attrs t)\<rparr>
      else t\<lparr>attrs := attrs t @ [(name, v)]\<rparr>)"

definition attrJoin :: "string \<Rightarrow> string \<Rightarrow> Token \<Rightarrow> Token" where
  "attrJoin name v t =
     (if name \<in> fst ` set (attrs t)
      then t\<lparr>attrs := replaceFirst name (\<lambda>old. old @ '' '' @ v) (attrs t)\<rparr>
      else t\<lparr>attrs := attrs t @ [(name, v)]\<rparr>)"

text \<open>An update of the element at an index of the stream, and of the last element.\<close>

definition updateToken :: "nat \<Rightarrow> (Token \<Rightarrow> Token) \<Rightarrow> Token list \<Rightarrow> Token list" where
  "updateToken i f toks = (if i < length toks then toks[i := f (toks ! i)] else toks)"

definition updateLast :: "(Token \<Rightarrow> Token) \<Rightarrow> StateBlock \<Rightarrow> StateBlock" where
  "updateLast f state = state\<lparr>tokens := updateToken (length (tokens state) - 1) f (tokens state)\<rparr>"

text \<open>
  \<open>String.prototype.trim\<close> and \<open>join(' ')\<close>. The text of an element is held as a
  list of 8-bit characters, so \<open>isWhiteSpace\<close> lists the white space and line
  terminators of JavaScript below code unit 256: tab, line feed, vertical tab, form
  feed, carriage return, space and no-break space. The white space above that range,
  such as U+2028 or U+FEFF, has no character in this model.
\<close>

definition isWhiteSpace :: "char \<Rightarrow> bool" where
  "isWhiteSpace c =
     (c \<in> set [CHR 0x20, CHR 0x09, CHR 0x0A, CHR 0x0B, CHR 0x0C, CHR 0x0D, CHR 0xA0])"

definition trim :: "string \<Rightarrow> string" where
  "trim s = rev (dropWhile isWhiteSpace (rev (dropWhile isWhiteSpace s)))"

fun joinSpace :: "string list \<Rightarrow> string" where
  "joinSpace [] = []"
| "joinSpace [v] = v"
| "joinSpace (v # vs) = v @ '' '' @ joinSpace vs"

text \<open>\<open>Number.prototype.toString\<close> for a natural number.\<close>

function toString :: "nat \<Rightarrow> string" where
  "toString n =
     (if n < 10 then [char_of (48 + n)]
      else toString (n div 10) @ [char_of (48 + n mod 10)])"
  by pat_completeness auto
termination
  by (relation "measure id") auto

declare toString.simps [simp del]

section \<open>The span resolver\<close>

definition COLSPAN_SYMBOL :: string where "COLSPAN_SYMBOL = ''>''"
definition ROWSPAN_SYMBOL :: string where "ROWSPAN_SYMBOL = ''^''"

text \<open>
  \<open>m[i][j]\<close> for a row \<open>i\<close> inside the map: \<open>None\<close> is \<open>undefined\<close>, the read
  beyond the end of the row.
\<close>

definition cellAt :: "'a list list \<Rightarrow> nat \<Rightarrow> nat \<Rightarrow> 'a option" where
  "cellAt m i j = (if i < length m \<and> j < length (m ! i) then Some (m ! i ! j) else None)"

definition markToken :: "nat \<Rightarrow> Token list \<Rightarrow> Token list" where
  "markToken t toks = updateToken t (\<lambda>k. k\<lparr>markForDeletion := True\<rparr>) toks"

text \<open>
  The two inner loops of \<open>applySpans\<close>. \<open>colspanScan\<close> is called with \<open>n = col + 1\<close>
  and walks the columns \<open>col\<close>, \<open>col - 1\<close>, ... of row \<open>i\<close>; \<open>rowspanScan\<close>
  walks the rows above in column \<open>j\<close>. The result \<open>None\<close> is the \<open>TypeError\<close> of a
  write to an element that is \<open>undefined\<close>.
\<close>

fun colspanScan ::
  "string list list \<Rightarrow> nat list list \<Rightarrow> nat \<Rightarrow> nat \<Rightarrow> nat \<Rightarrow> Token list \<Rightarrow> Token list option" where
  "colspanScan cm tm i 0 colspanFactor toks = Some toks"
| "colspanScan cm tm i (Suc col) colspanFactor toks =
     (if cellAt cm i col = Some COLSPAN_SYMBOL then
        (case cellAt tm i col of
           None \<Rightarrow> None
         | Some t \<Rightarrow> colspanScan cm tm i col (colspanFactor + 1) (markToken t toks))
      else if cellAt cm i col = Some ROWSPAN_SYMBOL then Some toks
      else
        (case cellAt tm i col of
           None \<Rightarrow> None
         | Some t \<Rightarrow> Some (updateToken t (attrSet ''colspan'' (toString colspanFactor)) toks)))"

fun rowspanScan ::
  "string list list \<Rightarrow> nat list list \<Rightarrow> nat \<Rightarrow> nat \<Rightarrow> nat \<Rightarrow> Token list \<Rightarrow> Token list option" where
  "rowspanScan cm tm j 0 rowSpanFactor toks = Some toks"
| "rowspanScan cm tm j (Suc row) rowSpanFactor toks =
     (if cellAt cm row j = Some ROWSPAN_SYMBOL then
        (case cellAt tm row j of
           None \<Rightarrow> None
         | Some t \<Rightarrow> rowspanScan cm tm j row (rowSpanFactor + 1) (markToken t toks))
      else if cellAt cm row j = Some COLSPAN_SYMBOL then Some toks
      else
        (case cellAt tm row j of
           None \<Rightarrow> None
         | Some t \<Rightarrow> Some (updateToken t (attrSet ''rowspan'' (toString rowSpanFactor)) toks)))"

text \<open>
  The body of the loops over \<open>i\<close> and \<open>j\<close>. A cell holds one text, so after the
  colspan branch the rowspan test of the same pass is false.
\<close>

definition spanCell ::
  "string list list \<Rightarrow> nat list list \<Rightarrow> nat \<Rightarrow> nat \<Rightarrow> Token list \<Rightarrow> Token list option" where
  "spanCell cm tm i j toks =
     (if cellAt cm i j = Some COLSPAN_SYMBOL then
        (if j = 0 then Some toks
         else
           (case cellAt tm i j of
              None \<Rightarrow> None
            | Some t \<Rightarrow> colspanScan cm tm i j 2 (markToken t toks)))
      else if cellAt cm i j = Some ROWSPAN_SYMBOL then
        (if i = 0 then Some toks
         else
           (case cellAt tm i j of
              None \<Rightarrow> None
            | Some t \<Rightarrow> rowspanScan cm tm j i 2 (markToken t toks)))
      else Some toks)"

text \<open>A \<open>for\<close> loop over a list of indices whose body may throw.\<close>

fun forEach :: "('a \<Rightarrow> 's \<Rightarrow> 's option) \<Rightarrow> 'a list \<Rightarrow> 's \<Rightarrow> 's option" where
  "forEach body [] s = Some s"
| "forEach body (x # xs) s = (case body x s of None \<Rightarrow> None | Some s' \<Rightarrow> forEach body xs s')"

text \<open>
  \<open>applySpans\<close>: \<open>i\<close> runs over the rows of the content map and \<open>j\<close> over the
  columns of its first row.
\<close>

definition applySpans ::
  "string list list \<Rightarrow> nat list list \<Rightarrow> Token list \<Rightarrow> Token list option" where
  "applySpans cm tm toks =
     (case cm of
        [] \<Rightarrow> Some toks
      | row0 # others \<Rightarrow>
          forEach (\<lambda>i. forEach (\<lambda>j. spanCell cm tm i j) [0..<length row0]) [0..<length cm] toks)"

text \<open>The coordinates the span resolver visits.\<close>

definition visited :: "string list list \<Rightarrow> (nat \<times> nat) list" where
  "visited cm =
     (case cm of
        [] \<Rightarrow> []
      | row0 # others \<Rightarrow> concat (map (\<lambda>i. map (\<lambda>j. (i, j)) [0..<length row0]) [0..<length cm]))"

section \<open>The tree builder\<close>

text \<open>
  What the plugin takes from its host: the recursive block tokenizer
  \<open>md.block.tokenize(state, startLine, endLine)\<close>, \<open>state.skipSpaces\<close>, the
  attribute parser, whose result lists each key with its values in insertion order,
  and, for \<open>extractAndApplyClassFromToken\<close>, the text work on the content of an
  element: \<open>classBlock\<close> gives the class found in a trailing block in braces and the
  content without it, or \<open>None\<close> when there is no such block or no class in it.
\<close>

record Host =
  tokenize :: "StateBlock \<Rightarrow> nat \<Rightarrow> nat \<Rightarrow> StateBlock"
  skipSpaces :: "StateBlock \<Rightarrow> num \<Rightarrow> num"
  parseAttrs :: "jsstring \<Rightarrow> (string \<times> string list) list"
  classBlock :: "string \<Rightarrow> (string \<times> string) option"

definition extractAttributes :: "Host \<Rightarrow> StateBlock \<Rightarrow> num \<Rightarrow> (string \<times> string list) list" where
  "extractAttributes host state p =
     (let attrsStringStart = skipSpaces host state p;
          attrsString = slice_from (src state) attrsStringStart
      in parseAttrs host attrsString)"

definition extractAndApplyClassFromToken :: "Host \<Rightarrow> nat \<Rightarrow> nat \<Rightarrow> Token list \<Rightarrow> Token list" where
  "extractAndApplyClassFromToken host contentToken tdOpenToken toks =
     (case classBlock host (content (toks ! contentToken)) of
        None \<Rightarrow> toks
      | Some (attrsClass, replaced) \<Rightarrow>
          updateToken contentToken (\<lambda>t. t\<lparr>content := replaced\<rparr>)
            (updateToken tdOpenToken (attrSet ''class'' attrsClass) toks))"

text \<open>
  The state of the two loops of the tree builder: the host state, \<open>cellsMap\<close> (the
  cell elements by row and column, as indices of the stream) and \<open>contentMap\<close>.
\<close>

record BuildState =
  bs_state :: StateBlock
  cellsMap :: "nat list list"
  contentMap :: "string list list"

definition pushLastRow :: "'a \<Rightarrow> 'a list list \<Rightarrow> 'a list list" where
  "pushLastRow x m = butlast m @ [last m @ [x]]"

text \<open>
  The override of the line index around the tokenization of a cell, and the restore
  after it.
\<close>

definition overrideLines :: "Stats \<Rightarrow> Stats \<Rightarrow> StateBlock \<Rightarrow> StateBlock" where
  "overrideLines begin ending state =
     state\<lparr>tShift := arr_set (tShift state) (line begin) (Some 0),
           bMarks := arr_set (bMarks state) (line begin) (pos begin),
           eMarks := arr_set (eMarks state) (line ending) (pos ending),
           lineMax := int (line ending) + 1\<rparr>"

definition restoreLines ::
  "Stats \<Rightarrow> Stats \<Rightarrow> num \<Rightarrow> num \<Rightarrow> num \<Rightarrow> int \<Rightarrow> StateBlock \<Rightarrow> StateBlock" where
  "restoreLines begin ending oldTshift oldBMark oldEMark oldLineMax state =
     (let s1 = state\<lparr>lineMax := oldLineMax\<rparr>;
          s2 = s1\<lparr>tShift := arr_set (tShift s1) (line begin) oldTshift\<rparr>;
          s3 = s2\<lparr>bMarks := arr_set (bMarks s2) (line begin) oldBMark\<rparr>
      in s3\<lparr>eMarks := arr_set (eMarks s3) (line ending) oldEMark\<rparr>)"

text \<open>
  The body of the loop over the cells of a row. \<open>None\<close> is a \<open>TypeError\<close>: of
  \<open>cellsMap[i].push\<close> when the maps have no row, or of reading \<open>content\<close> from
  \<open>state.tokens[state.tokens.length - 2]\<close> when the stream holds fewer than two
  elements.
\<close>

definition processCell :: "Host \<Rightarrow> Stats \<times> Stats \<Rightarrow> BuildState \<Rightarrow> BuildState option" where
  "processCell host cell bs =
     (let begin = fst cell; ending = snd cell;
          s1 = push ''yfm_td_open'' ''td'' 1 (bs_state bs);
          tdOpen = length (tokens s1) - 1;
          cells = pushLastRow tdOpen (cellsMap bs);
          s2 = updateLast (\<lambda>t. t\<lparr>tok_map := Some (int (line begin), int (line ending))\<rparr>) s1;
          oldTshift = arr_get (tShift s2) (line begin);
          oldEMark = arr_get (eMarks s2) (line ending);
          oldBMark = arr_get (bMarks s2) (line begin);
          oldLineMax = lineMax s2;
          s3 = tokenize host (overrideLines begin ending s2) (line begin) (line ending + 1)
      in if cellsMap bs = [] \<or> contentMap bs = [] \<or> length (tokens s3) < 2 then None
         else
           let contentToken = length (tokens s3) - 2;
               trimmed = trim (content (tokens s3 ! contentToken));
               cellText = (if trimmed \<noteq> [] then trimmed else trim (markup (tokens s3 ! contentToken)));
               contents = pushLastRow cellText (contentMap bs);
               s4 = push ''yfm_td_close'' ''td'' (-1) s3;
               s5 = updateLast (\<lambda>t. t\<lparr>tok_map := Some (int (line ending), int (line ending) + 1)\<rparr>) s4;
               s6 = restoreLines begin ending oldTshift oldBMark oldEMark oldLineMax s5;
               rowTokens = last cells;
               s7 = s6\<lparr>tokens := extractAndApplyClassFromToken host contentToken (last rowTokens) (tokens s6)\<rparr>
           in Some \<lparr>bs_state = s7, cellsMap = cells, contentMap = contents\<rparr>)"

text \<open>The padding of a short row: an open and a close element for every missing cell.\<close>

primrec padRow :: "nat \<Rightarrow> StateBlock \<Rightarrow> StateBlock" where
  "padRow 0 state = state"
| "padRow (Suc k) state =
     padRow k (push ''yfm_td_close'' ''td'' (-1) (push ''yfm_td_open'' ''td'' 1 state))"

definition processRow ::
  "Host \<Rightarrow> nat \<Rightarrow> nat \<times> nat \<times> (Stats \<times> Stats) list \<Rightarrow> BuildState \<Rightarrow> BuildState option" where
  "processRow host maxRowLength row bs =
     (case row of (rowLineStarts, rowLineEnds, cols) \<Rightarrow>
        let rowLength = length cols;
            s1 = push ''yfm_tr_open'' ''tr'' 1 (bs_state bs);
            s2 = updateLast (\<lambda>t. t\<lparr>tok_map := Some (int rowLineStarts, int rowLineEnds)\<rparr>) s1;
            bs1 = \<lparr>bs_state = s2, cellsMap = cellsMap bs @ [[]], contentMap = contentMap bs @ [[]]\<rparr>
        in (case forEach (processCell host) cols bs1 of
              None \<Rightarrow> None
            | Some bs2 \<Rightarrow>
                let s3 = (if rowLength < maxRowLength
                          then padRow (maxRowLength - rowLength) (bs_state bs2)
                          else bs_state bs2)
                in Some (bs2\<lparr>bs_state := push ''yfm_tr_close'' ''tr'' (-1) s3\<rparr>)))"

text \<open>
  \<open>Math.max\<close> over the cell counts of the rows. For no rows \<open>Math.max()\<close> is
  \<open>-Infinity\<close>; the value is then not used, since it is read only inside the loop
  over the rows.
\<close>

definition maxRowLengthOf :: "(nat \<times> nat \<times> (Stats \<times> Stats) list) list \<Rightarrow> nat" where
  "maxRowLengthOf rs = foldr (\<lambda>(a, b, cols) m. max (length cols) m) rs 0"

definition buildRows ::
  "Host \<Rightarrow> (nat \<times> nat \<times> (Stats \<times> Stats) list) list \<Rightarrow> StateBlock \<Rightarrow> BuildState option" where
  "buildRows host rs state =
     forEach (processRow host (maxRowLengthOf rs)) rs
       \<lparr>bs_state = state, cellsMap = [], contentMap = []\<rparr>"

definition openTable ::
  "nat \<Rightarrow> nat \<Rightarrow> (string \<times> string list) list \<Rightarrow> StateBlock \<Rightarrow> StateBlock" where
  "openTable startLine endOfTable' attributes state =
     (let s1 = push ''yfm_table_open'' ''table'' 1
                 (state\<lparr>lineMax := int endOfTable', state_line := int startLine\<rparr>);
          fullAttrs = filter (\<lambda>(k, vs). k \<noteq> ''attr'') attributes;
          singleKeyAttrs = concat (map snd (filter (\<lambda>(k, vs). k = ''attr'') attributes));
          s2 = foldl (\<lambda>s (property, vs). updateLast (attrJoin property (joinSpace vs)) s) s1 fullAttrs;
          s3 = foldl (\<lambda>s a. updateLast (attrJoin a ''true'') s) s2 singleKeyAttrs;
          s4 = updateLast (\<lambda>t. t\<lparr>tok_map := Some (int startLine, int endOfTable')\<rparr>) s3;
          s5 = push ''yfm_tbody_open'' ''tbody'' 1 s4
      in updateLast (\<lambda>t. t\<lparr>tok_map := Some (int startLine + 1, int endOfTable' - 1)\<rparr>) s5)"

definition buildTable ::
  "Host \<Rightarrow> StateBlock \<Rightarrow> nat \<Rightarrow> nat \<Rightarrow> (nat \<times> nat \<times> (Stats \<times> Stats) list) list
    \<Rightarrow> (string \<times> string list) list \<Rightarrow> (StateBlock \<times> bool) option" where
  "buildTable host state startLine endOfTable' rs attributes =
     (let oldParentLineMax = lineMax state;
          tableStart = length (tokens state);
          s1 = openTable startLine endOfTable' attributes state
      in case buildRows host rs s1 of
           None \<Rightarrow> None
         | Some bs \<Rightarrow>
             (case applySpans (contentMap bs) (cellsMap bs) (tokens (bs_state bs)) of
                None \<Rightarrow> None
              | Some spanned \<Rightarrow>
                  let s2 = (bs_state bs)\<lparr>tokens := clearTokens tableStart spanned\<rparr>;
                      s3 = push ''yfm_tbody_close'' ''tbody'' (-1) s2;
                      s4 = push ''yfm_table_close'' ''table'' (-1) s3;
                      s5 = updateLast (\<lambda>t. t\<lparr>tok_map := Some (int endOfTable', int endOfTable' + 1)\<rparr>) s4
                  in Some (s5\<lparr>lineMax := oldParentLineMax, state_line := int endOfTable'\<rparr>, True)))"

text \<open>The diagnostic element of an unterminated table.\<close>

definition lintUnterminated :: "StateBlock \<Rightarrow> nat \<Rightarrow> nat \<Rightarrow> StateBlock" where
  "lintUnterminated state startLine endLine =
     updateLast (attrSet ''YFM004'' ''true'')
       (updateLast (\<lambda>t. t\<lparr>hidden := True, tok_map := Some (int startLine, int endLine)\<rparr>)
          (push ''__yfm_lint'' [] 0 state))"

text \<open>
  The block rule. The result is the host state after the call and the boolean the
  rule returns; \<open>None\<close> is a \<open>TypeError\<close> thrown while the table is built.
\<close>

definition yfmTable ::
  "Host \<Rightarrow> YfmTablePluginOptions \<Rightarrow> StateBlock \<Rightarrow> nat \<Rightarrow> nat \<Rightarrow> bool
    \<Rightarrow> (StateBlock \<times> bool) option" where
  "yfmTable host opts state startLine endLine silent =
     (let startPosition = num_add (arr_get (bMarks state) startLine) (arr_get (tShift state) startLine);
          endPosition = arr_get (eMarks state) endLine
      in if num_lt (num_sub endPosition startPosition) (Some 2) then Some (state, False)
         else if \<not> isOpenTableOrder (src state) startPosition then Some (state, False)
         else if silent then Some (state, True)
         else
           let r = getTableRowPositions state startPosition endPosition startLine opts;
               attributes = extractAttributes host state (rp_pos r)
           in case rp_endOfTable r of
                None \<Rightarrow> Some (lintUnterminated state startLine endLine, False)
              | Some endOfTable' \<Rightarrow> buildTable host state startLine endOfTable' (rp_rows r) attributes)"

section \<open>Passes of the scanner\<close>

text \<open>The state in which a pass of the loop makes its marker tests.\<close>

definition settled :: "YfmTablePluginOptions \<Rightarrow> StateBlock \<Rightarrow> ScanState \<Rightarrow> ScanState" where
  "settled opts state s =
     liquidEnd state (liquidStart state (toggleMath opts state (toggleCode opts state s)))"

text \<open>
  Balanced fences as the specification words them, read off the text alone: from the
  code unit after the opening fence on, \<^verbatim>\<open>#|\<close> opens a nested table and \<^verbatim>\<open>|#\<close>
  closes the innermost open one; the text is balanced when the \<^verbatim>\<open>|#\<close> that closes
  the outer table is found.
\<close>

fun fencesBalanced :: "nat \<Rightarrow> jsstring \<Rightarrow> bool" where
  "fencesBalanced depth (c1 # c2 # rest) =
     (if c1 = hashChar \<and> c2 = pipeChar then fencesBalanced (Suc depth) rest
      else if c1 = pipeChar \<and> c2 = hashChar
      then (if depth = 0 then True else fencesBalanced (depth - 1) rest)
      else fencesBalanced depth (c2 # rest))"
| "fencesBalanced depth rest = False"

section \<open>Notions for the properties of the tree builder\<close>


definition startPositionOf :: "StateBlock \<Rightarrow> nat \<Rightarrow> num" where
  "startPositionOf state startLine =
     num_add (arr_get (bMarks state) startLine) (arr_get (tShift state) startLine)"

definition endPositionOf :: "StateBlock \<Rightarrow> nat \<Rightarrow> num" where
  "endPositionOf state endLine = arr_get (eMarks state) endLine"


definition linesUntouchedBy :: "Host \<Rightarrow> bool" where
  "linesUntouchedBy host =
     (\<forall>state a b. tShift (tokenize host state a b) = tShift state
          \<and> bMarks (tokenize host state a b) = bMarks state
          \<and> eMarks (tokenize host state a b) = eMarks state)"

section \<open>Notions for the closing fence\<close>

text \<open>
  The fence that closes the outer table, read off the text alone. From offset \<open>p\<close>
  on, \<^verbatim>\<open>#|\<close> opens a nested table and \<^verbatim>\<open>|#\<close> closes the innermost open one;
  \<open>matchingFence str depth p\<close> is the offset of the \<^verbatim>\<open>|#\<close> that is met with no
  nested table open, and \<open>None\<close> when the text ends before. It is \<open>fencesBalanced\<close>
  with the offset of the fence as its result.
\<close>

definition opensAt :: "jsstring \<Rightarrow> int \<Rightarrow> bool" where
  "opensAt str p = (charCodeAt str p = Some hashChar \<and> charCodeAt str (p + 1) = Some pipeChar)"

definition closesAt :: "jsstring \<Rightarrow> int \<Rightarrow> bool" where
  "closesAt str p = (charCodeAt str p = Some pipeChar \<and> charCodeAt str (p + 1) = Some hashChar)"

function matchingFence :: "jsstring \<Rightarrow> nat \<Rightarrow> int \<Rightarrow> int option" where
  "matchingFence str depth p =
     (if p < 0 \<or> int (length str) \<le> p then None
      else if opensAt str p then matchingFence str (Suc depth) (p + 2)
      else if closesAt str p
      then (if depth = 0 then Some p else matchingFence str (depth - 1) (p + 2))
      else matchingFence str depth (p + 1))"
  by pat_completeness auto
termination
  by (relation "measure (\<lambda>(str, depth, p). nat (int (length str) - p))") auto

declare matchingFence.simps [simp del]


definition onLine :: "StateBlock \<Rightarrow> nat \<Rightarrow> int \<Rightarrow> bool" where
  "onLine state l p =
     (case (startPositionOf state l, endPositionOf state l) of
        (Some b, Some e) \<Rightarrow> b \<le> p \<and> p \<le> e
      | other \<Rightarrow> False)"




text \<open>
  Offset \<open>p\<close> of line \<open>l\<close> is plain when no inert region starts there: no fenced
  code block unless the option is off, no fenced math block when the option is on, no
  template variable, and no inline code or math span that the skippers accept when
  their options are on. A range of offsets is plain when every offset of it is, on
  each line of the range of lines that it lies on.
\<close>

definition plainAt :: "YfmTablePluginOptions \<Rightarrow> StateBlock \<Rightarrow> nat \<Rightarrow> int \<Rightarrow> bool" where
  "plainAt opts state l p =
     (\<not> (table_ignoreSplittersInBlockCode opts \<noteq> Some False \<and> isCodeBlockOrder (src state) (Some p))
      \<and> \<not> (table_ignoreSplittersInBlockMath opts = Some True \<and> isMathBlockOrder (src state) (Some p))
      \<and> \<not> isLiquidVariableStart (src state) (Some p)
      \<and> \<not> (table_ignoreSplittersInInlineCode opts = Some True
            \<and> skipInlineCode (src state) p (endPositionOf state l) \<noteq> None)
      \<and> \<not> (table_ignoreSplittersInInlineMath opts = Some True
            \<and> skipInlineMath (src state) p (endPositionOf state l) \<noteq> None))"

definition plainRegion ::
  "YfmTablePluginOptions \<Rightarrow> StateBlock \<Rightarrow> nat \<Rightarrow> nat \<Rightarrow> int \<Rightarrow> int \<Rightarrow> bool" where
  "plainRegion opts state a b lo hi =
     list_all (\<lambda>l. list_all (\<lambda>p. onLine state l p \<longrightarrow> plainAt opts state l p) [lo..hi]) [a..<Suc b]"

text \<open>
  No \<^verbatim>\<open>|#\<close> begins at the second pipe of an unescaped \<^verbatim>\<open>||\<close>: the two pipes are
  read as a row marker, and the fence would not be seen.
\<close>

definition fenceClearOfRowMarkers :: "jsstring \<Rightarrow> int \<Rightarrow> int \<Rightarrow> bool" where
  "fenceClearOfRowMarkers str lo hi =
     list_all (\<lambda>q. isRowOrder str (Some q) \<longrightarrow> \<not> closesAt str (q + 1)) [lo..hi]"



section \<open>Example inputs\<close>

text \<open>The options when none is given, and a host state over a source and its line index.\<close>

definition defaultOpts :: YfmTablePluginOptions where
  "defaultOpts =
     \<lparr>table_ignoreSplittersInBlockCode = None,
      table_ignoreSplittersInBlockMath = None,
      table_ignoreSplittersInInlineCode = None,
      table_ignoreSplittersInInlineMath = None\<rparr>"

definition hostState :: "jsstring \<Rightarrow> int list \<Rightarrow> int list \<Rightarrow> StateBlock" where
  "hostState s bs es =
     \<lparr>src = s, bMarks = map Some bs, eMarks = map Some es, tShift = map (\<lambda>b. Some 0) bs,
      lineMax = int (length bs) - 1, state_line = 0, tokens = [], state_level = 0\<rparr>"

text \<open>
  A table whose only row opens on line 0, right after the opening fence:
  \<^verbatim>\<open>#||| a ||\<close>, a line break, \<^verbatim>\<open>|#\<close>. The second state holds the same text one
  line lower, after an empty first line.
\<close>

definition rowOnLine0 :: StateBlock where
  "rowOnLine0 = hostState (codes ''#||| a ||'' @ [10] @ codes ''|#'') [0, 10, 12] [9, 12, 12]"

definition rowOnLine1 :: StateBlock where
  "rowOnLine1 =
     hostState ([10] @ codes ''#||| a ||'' @ [10] @ codes ''|#'') [0, 1, 11, 13] [0, 10, 13, 13]"

text \<open>
  A table with an unclosed code fence in its only cell: \<^verbatim>\<open>#|\<close>, a line break,
  \<^verbatim>\<open>|| ``` ||\<close>, a line break, \<^verbatim>\<open>|#\<close>.
\<close>

definition fenceInCode :: StateBlock where
  "fenceInCode =
     hostState (codes ''#|'' @ [10] @ codes ''|| ``` ||'' @ [10] @ codes ''|#'')
       [0, 3, 13, 15] [2, 12, 15, 15]"

text \<open>
  A nested table on the line of the opening fence, \<^verbatim>\<open>#|#| || a |# |#\<close>, and the
  scanner's state at the row marker inside it (index 5), where one nested table is
  open.
\<close>

definition nestedTable :: StateBlock where
  "nestedTable = hostState (codes ''#|#| || a |# |#'') [0, 15] [15, 15]"

definition nestedAtRowMarker :: ScanState where
  "nestedAtRowMarker =
     (initialScan nestedTable (Some 0) 0)
       \<lparr>iter := \<lparr>it_pos = Some 5, it_line = 0, it_lineEnds = Some 15\<rparr>, tableLevel := 1\<rparr>"

text \<open>
  The option that skips inline code spans, and a table of two rows with a backtick
  in each: \<^verbatim>\<open>#|\<close>, \<^verbatim>\<open>||`a||\<close>, \<^verbatim>\<open>||`b||\<close>, \<^verbatim>\<open>|#\<close>, one per line.
\<close>

definition inlineCodeOpts :: YfmTablePluginOptions where
  "inlineCodeOpts = defaultOpts\<lparr>table_ignoreSplittersInInlineCode := Some True\<rparr>"

definition codeAcrossRows :: StateBlock where
  "codeAcrossRows =
     hostState (codes ''#|'' @ [10] @ codes ''||'' @ [96] @ codes ''a||'' @ [10]
                @ codes ''||'' @ [96] @ codes ''b||'' @ [10] @ codes ''|#'')
       [0, 3, 10, 17, 19] [2, 9, 16, 19, 19]"

text \<open>
  The elements of a row of three cells: the second is marked and has its close
  element, the third is marked and its close element is missing.
\<close>

definition tok :: "string \<Rightarrow> int \<Rightarrow> bool \<Rightarrow> Token" where
  "tok ty lvl marked =
     \<lparr>tok_type = ty, tag = [], nesting = 0, level = lvl, tok_map = None, attrs = [],
      hidden = False, content = [], markup = [], markForDeletion = marked\<rparr>"

definition rowTokens :: "Token list" where
  "rowTokens =
     [tok ''yfm_tr_open'' 2 False,
      tok ''yfm_td_open'' 3 False, tok ''inline'' 4 False, tok ''yfm_td_close'' 3 False,
      tok ''yfm_td_open'' 3 True, tok ''inline'' 4 False, tok ''yfm_td_close'' 3 False,
      tok ''yfm_td_open'' 3 True,
      tok ''yfm_tr_close'' 2 False]"

text \<open>
  A host for the examples: its tokenizer emits a paragraph whose inline element holds
  the trimmed text of the lines it is given; it finds no attributes and no classes.
\<close>

definition lineText :: "StateBlock \<Rightarrow> nat \<Rightarrow> nat \<Rightarrow> string" where
  "lineText state a b =
     (case (num_add (arr_get (bMarks state) a) (arr_get (tShift state) a), arr_get (eMarks state) (b - 1)) of
        (Some from, Some to) \<Rightarrow> map char_of (slice_between (src state) from to)
      | other \<Rightarrow> [])"

definition paragraphHost :: Host where
  "paragraphHost =
     \<lparr>tokenize = (\<lambda>state a b.
         (push ''paragraph_close'' ''p'' (-1)
           (updateLast (\<lambda>t. t\<lparr>content := trim (lineText state a b)\<rparr>)
             (push ''inline'' [] 0
               (push ''paragraph_open'' ''p'' 1 state))))\<lparr>state_line := int b\<rparr>),
      skipSpaces = (\<lambda>state p. p),
      parseAttrs = (\<lambda>s. []),
      classBlock = (\<lambda>s. None)\<rparr>"

text \<open>
  A table whose first row has one cell and whose second row has two, the second a
  colspan sentinel: \<^verbatim>\<open>#|\<close>, \<^verbatim>\<open>|| a ||\<close>, \<^verbatim>\<open>|| b | > ||\<close>, \<^verbatim>\<open>|#\<close>, one per line.
  And a table with a rowspan sentinel in the second column below a row of one cell:
  \<^verbatim>\<open>#|\<close>, \<^verbatim>\<open>|| a | b ||\<close>, \<^verbatim>\<open>|| c ||\<close>, \<^verbatim>\<open>|| d | ^ ||\<close>, \<^verbatim>\<open>|#\<close>.
\<close>

definition raggedTable :: StateBlock where
  "raggedTable =
     hostState (codes ''#|'' @ [10] @ codes ''|| a ||'' @ [10] @ codes ''|| b | > ||'' @ [10] @ codes ''|#'')
       [0, 3, 11, 23, 25] [2, 10, 22, 25, 25]"

definition rowspanUnderShortRow :: StateBlock where
  "rowspanUnderShortRow =
     hostState (codes ''#|'' @ [10] @ codes ''|| a | b ||'' @ [10] @ codes ''|| c ||'' @ [10]
                @ codes ''|| d | ^ ||'' @ [10] @ codes ''|#'')
       [0, 3, 15, 23, 35, 37] [2, 14, 22, 34, 37, 37]"

text \<open>The output stream in short: type, attributes and content of each element.\<close>

definition outline :: "StateBlock \<Rightarrow> (string \<times> (string \<times> string) list \<times> string) list" where
  "outline state = map (\<lambda>t. (tok_type t, attrs t, content t)) (tokens state)"


definition cellOfRow :: "Stats \<times> Stats" where
  "cellOfRow = (\<lparr>line = 1, pos = Some 5\<rparr>, \<lparr>line = 1, pos = Some 8\<rparr>)"

definition rowOpened :: BuildState where
  "rowOpened = \<lparr>bs_state = rowOnLine1, cellsMap = [[]], contentMap = [[]]\<rparr>"


definition fenceAfterRowMarker :: StateBlock where
  "fenceAfterRowMarker = hostState (codes ''#|'' @ [10] @ codes ''|| a ||#'') [0, 3, 11] [2, 11, 11]"

section \<open>Escape correctness\<close>

lemma checkCharsLoop_take:
  "checkCharsLoop order cur i = (take (length order) (drop i cur) = order)"
proof (induction order arbitrary: i)
  case Nil
  show ?case by simp
next
  case (Cons a order)
  show ?case
  proof (cases "i < length cur")
    case True
    then have "drop i cur = cur ! i # drop (Suc i) cur"
      by (simp add: Cons_nth_drop_Suc)
    with True Cons show ?thesis
      by (auto simp: charCodeAt_def)
  next
    case False
    then show ?thesis by (simp add: charCodeAt_def)
  qed
qed

lemma isEscapedLoop_stop:
  "p < 0 \<Longrightarrow> isEscapedLoop str p = p"
  by (simp add: charCodeAt_def)

lemma isEscapedLoop_count:
  "-1 \<le> p \<Longrightarrow>
   p - isEscapedLoop str p =
     int (length (takeWhile (\<lambda>i. charCodeAt str (int i) = Some backSlashChar) (rev [0..<nat (p + 1)])))"
proof (induction "nat (p + 1)" arbitrary: p)
  case 0
  then have "p = -1" by simp
  then show ?case by (simp add: charCodeAt_def)
next
  case (Suc n)
  then have p: "0 \<le> p" "nat (p + 1) = Suc (nat p)" "n = nat p" by auto
  show ?case
  proof (cases "charCodeAt str p = Some backSlashChar")
    case True
    have "n = nat ((p - 1) + 1)" using p by simp
    moreover have "-1 \<le> p - 1" using p by simp
    ultimately have ih: "(p - 1) - isEscapedLoop str (p - 1) =
        int (length (takeWhile (\<lambda>i. charCodeAt str (int i) = Some backSlashChar) (rev [0..<nat p])))"
      using Suc.hyps(1)[of "p - 1"] by simp
    have step: "isEscapedLoop str p = isEscapedLoop str (p - 1)"
      using True by simp
    show ?thesis
      using True p ih by (simp add: step del: isEscapedLoop.simps)
  next
    case False
    then show ?thesis using p by simp
  qed
qed

lemma isEscaped_parity: "isEscaped str ps = odd (backslashesBefore str ps)"
proof (cases "0 \<le> ps")
  case True
  then have "(ps - 1) - isEscapedLoop str (ps - 1) = int (backslashesBefore str ps)"
    using isEscapedLoop_count[of "ps - 1" str] by (simp add: backslashesBefore_def)
  then have "ps - isEscapedLoop str (ps - 1) = int (backslashesBefore str ps) + 1"
    by simp
  then show ?thesis
    by (simp add: isEscaped_def Let_def del: isEscapedLoop.simps) presburger
next
  case False
  then have "isEscapedLoop str (ps - 1) = ps - 1"
    by (intro isEscapedLoop_stop) simp
  moreover have "backslashesBefore str ps = 0"
    using False by (simp add: backslashesBefore_def)
  ultimately show ?thesis
    by (simp add: isEscaped_def Let_def del: isEscapedLoop.simps)
qed

text \<open>
  C1. For every source string and position, the marker at that position counts as
  escaped exactly when the number of consecutive backslashes immediately before it is
  odd. A row marker (two pipes) is a row delimiter exactly when that number is even, and
  a single pipe that is not the start of a row marker is a cell delimiter exactly when
  that number is even.
\<close>

theorem escape_correctness:
  "isEscaped str ps = odd (backslashesBefore str ps)
   \<and> isRowOrder str (Some ps) =
       (checkCharsOrder rowStartOrder str (Some ps) \<and> even (backslashesBefore str ps))
   \<and> isCellOrder str (Some ps) =
       (checkCharsOrder cellStartOrder str (Some ps)
        \<and> \<not> checkCharsOrder rowStartOrder str (Some ps)
        \<and> even (backslashesBefore str ps))"
  by (auto simp: isRowOrder_def isCellOrder_def notEscapedAt_def notEscaped_def isEscaped_parity)

theorem escape_correctness_witness:
  "isEscaped [97, 92, 124, 124] 2 \<and> \<not> isRowOrder [97, 92, 124, 124] (Some 2)
   \<and> \<not> isCellOrder [97, 92, 124, 124] (Some 2)
   \<and> isCellOrder [97, 92, 124, 124] (Some 3)
   \<and> isRowOrder [92, 92, 124, 124] (Some 2)"
  using escape_correctness[of "[97, 92, 124, 124]" 2] escape_correctness[of "[97, 92, 124, 124]" 3]
    escape_correctness[of "[92, 92, 124, 124]" 2]
  by (simp add: backslashesBefore_def charCodeAt_def backSlashChar_def upt_rec
      checkCharsOrder_def slice_from_def rowStartOrder_def cellStartOrder_def pipeChar_def)

section \<open>Rows that start on line 0\<close>

lemma rowOnLine0_scan:
  "getTableRowPositions rowOnLine0 (Some 0) (Some 12) 0 defaultOpts =
     \<lparr>rp_rows = [], rp_endOfTable = Some 3, rp_pos = Some 12\<rparr>"
  by code_simp

lemma rowOnLine1_scan:
  "getTableRowPositions rowOnLine1 (Some 1) (Some 13) 1 defaultOpts =
     \<lparr>rp_rows = [(1, 1, [(\<lparr>line = 1, pos = Some 5\<rparr>, \<lparr>line = 1, pos = Some 8\<rparr>)])],
      rp_endOfTable = Some 4, rp_pos = Some 13\<rparr>"
  by code_simp

text \<open>
  C10. \<open>addRow\<close> records the row only when its cell list is not empty and
  \<open>rowStart\<close> is truthy, that is neither \<open>null\<close> nor 0. So the row of a table whose
  row marker stands on line 0 is dropped from the result, although the closing fence
  is found; the same text one line lower yields the row.
\<close>

theorem row_on_line_zero_dropped:
  "rows (addRow s) =
     (if closeCell s \<noteq> [] \<and> rowStart s \<noteq> None \<and> rowStart s \<noteq> Some 0
      then rows s @ [(the (rowStart s), it_line (iter s), closeCell s)]
      else rows s)
   \<and> rp_rows (getTableRowPositions rowOnLine0 (Some 0) (Some 12) 0 defaultOpts) = []
   \<and> rp_endOfTable (getTableRowPositions rowOnLine0 (Some 0) (Some 12) 0 defaultOpts) = Some 3
   \<and> rp_rows (getTableRowPositions rowOnLine1 (Some 1) (Some 13) 1 defaultOpts) =
       [(1, 1, [(\<lparr>line = 1, pos = Some 5\<rparr>, \<lparr>line = 1, pos = Some 8\<rparr>)])]"
proof -
  have pushed: "rows (addRow s) =
     (if closeCell s \<noteq> [] \<and> rowStart s \<noteq> None \<and> rowStart s \<noteq> Some 0
      then rows s @ [(the (rowStart s), it_line (iter s), closeCell s)]
      else rows s)"
    by (simp add: addRow_def Let_def split: option.splits)
  show ?thesis
    unfolding rowOnLine0_scan rowOnLine1_scan by (intro conjI pushed; simp)
qed

section \<open>Nested tables are opaque\<close>

lemma toggleCode_frame:
  "rows (toggleCode opts state s) = rows s \<and> currentRow (toggleCode opts state s) = currentRow s
   \<and> colStart (toggleCode opts state s) = colStart s \<and> rowStart (toggleCode opts state s) = rowStart s
   \<and> rowMap (toggleCode opts state s) = rowMap s \<and> endOfTable (toggleCode opts state s) = endOfTable s
   \<and> tableLevel (toggleCode opts state s) = tableLevel s"
  by (simp add: toggleCode_def advance_def)

lemma toggleMath_frame:
  "rows (toggleMath opts state s) = rows s \<and> currentRow (toggleMath opts state s) = currentRow s
   \<and> colStart (toggleMath opts state s) = colStart s \<and> rowStart (toggleMath opts state s) = rowStart s
   \<and> rowMap (toggleMath opts state s) = rowMap s \<and> endOfTable (toggleMath opts state s) = endOfTable s
   \<and> tableLevel (toggleMath opts state s) = tableLevel s"
  by (simp add: toggleMath_def advance_def)

lemma liquidStart_frame:
  "rows (liquidStart state s) = rows s \<and> currentRow (liquidStart state s) = currentRow s
   \<and> colStart (liquidStart state s) = colStart s \<and> rowStart (liquidStart state s) = rowStart s
   \<and> rowMap (liquidStart state s) = rowMap s \<and> endOfTable (liquidStart state s) = endOfTable s
   \<and> tableLevel (liquidStart state s) = tableLevel s"
  by (simp add: liquidStart_def advance_def)

lemma liquidEnd_frame:
  "rows (liquidEnd state s) = rows s \<and> currentRow (liquidEnd state s) = currentRow s
   \<and> colStart (liquidEnd state s) = colStart s \<and> rowStart (liquidEnd state s) = rowStart s
   \<and> rowMap (liquidEnd state s) = rowMap s \<and> endOfTable (liquidEnd state s) = endOfTable s
   \<and> tableLevel (liquidEnd state s) = tableLevel s"
  by (simp add: liquidEnd_def advance_def)

lemma settled_frame:
  "rows (settled opts state s) = rows s \<and> currentRow (settled opts state s) = currentRow s
   \<and> colStart (settled opts state s) = colStart s \<and> rowStart (settled opts state s) = rowStart s
   \<and> rowMap (settled opts state s) = rowMap s \<and> endOfTable (settled opts state s) = endOfTable s
   \<and> tableLevel (settled opts state s) = tableLevel s"
  by (simp add: settled_def toggleCode_frame toggleMath_frame liquidStart_frame liquidEnd_frame)

lemma advance_frame:
  "rows (advance state k s) = rows s \<and> currentRow (advance state k s) = currentRow s
   \<and> colStart (advance state k s) = colStart s \<and> rowStart (advance state k s) = rowStart s
   \<and> rowMap (advance state k s) = rowMap s \<and> endOfTable (advance state k s) = endOfTable s
   \<and> tableLevel (advance state k s) = tableLevel s"
  by (simp add: advance_def)

lemma scanFences_nested:
  assumes "0 < tableLevel s"
  shows "rows (fst (scanFences state s)) = rows s \<and> currentRow (fst (scanFences state s)) = currentRow s
   \<and> colStart (fst (scanFences state s)) = colStart s \<and> rowStart (fst (scanFences state s)) = rowStart s
   \<and> rowMap (fst (scanFences state s)) = rowMap s \<and> endOfTable (fst (scanFences state s)) = endOfTable s
   \<and> \<not> snd (scanFences state s)"
  using assms by (simp add: scanFences_def advance_def)

lemma scanInline_nested:
  assumes "0 < tableLevel s"
  shows "rows (fst (scanInline opts state s)) = rows s \<and> currentRow (fst (scanInline opts state s)) = currentRow s
   \<and> colStart (fst (scanInline opts state s)) = colStart s \<and> rowStart (fst (scanInline opts state s)) = rowStart s
   \<and> rowMap (fst (scanInline opts state s)) = rowMap s \<and> endOfTable (fst (scanInline opts state s)) = endOfTable s
   \<and> \<not> snd (scanInline opts state s)"
  using scanFences_nested[OF assms, of state]
  by (simp add: scanInline_def advance_def split: option.splits)

lemma scanBody_cases:
  "scanBody opts state s =
     (let s1 = toggleMath opts state (toggleCode opts state s); u = settled opts state s in
      if isInsideCode s1 \<or> isInsideMath s1 then (advance state 1 s1, False)
      else if isInsideLiquidVariable u then (advance state 1 u, False)
      else scanInline opts state u)"
  by (simp add: scanBody_def settled_def Let_def)

text \<open>
  C3. While a nested table is open (\<open>tableLevel > 0\<close>) a pass of the scanner leaves
  the recorded rows, the cells of the current row, the open cell, the row start, the
  row toggles and \<open>endOfTable\<close> as they are, and does not end the scan: row and cell
  markers inside a nested table produce no row or cell entry.
\<close>

theorem nested_tables_opaque:
  assumes "0 < tableLevel s"
  shows "rows (fst (scanBody opts state s)) = rows s
     \<and> currentRow (fst (scanBody opts state s)) = currentRow s
     \<and> colStart (fst (scanBody opts state s)) = colStart s
     \<and> rowStart (fst (scanBody opts state s)) = rowStart s
     \<and> rowMap (fst (scanBody opts state s)) = rowMap s
     \<and> endOfTable (fst (scanBody opts state s)) = endOfTable s
     \<and> \<not> snd (scanBody opts state s)"
proof -
  define s1 where "s1 = toggleMath opts state (toggleCode opts state s)"
  define u where "u = settled opts state s"
  have lvl: "0 < tableLevel u"
    using assms by (simp add: u_def settled_frame)
  consider (fence) "isInsideCode s1 \<or> isInsideMath s1"
    | (liquid) "\<not> (isInsideCode s1 \<or> isInsideMath s1)" "isInsideLiquidVariable u"
    | (markers) "\<not> (isInsideCode s1 \<or> isInsideMath s1)" "\<not> isInsideLiquidVariable u"
    by blast
  then show ?thesis
  proof cases
    case fence
    then have "scanBody opts state s = (advance state 1 s1, False)"
      by (simp add: scanBody_cases s1_def Let_def)
    then show ?thesis
      by (simp add: advance_frame s1_def toggleMath_frame toggleCode_frame)
  next
    case liquid
    then have "scanBody opts state s = (advance state 1 u, False)"
      by (simp add: scanBody_cases s1_def u_def Let_def)
    then show ?thesis
      by (simp add: advance_frame u_def settled_frame)
  next
    case markers
    then have "scanBody opts state s = scanInline opts state u"
      by (simp add: scanBody_cases s1_def u_def Let_def)
    then show ?thesis
      using scanInline_nested[OF lvl, of opts state] by (simp add: u_def settled_frame)
  qed
qed

lemma nestedAtRowMarker_pass:
  "isRowOrder (src nestedTable) (it_pos (iter nestedAtRowMarker))
   \<and> rows nestedAtRowMarker = [] \<and> colStart nestedAtRowMarker = None"
  by code_simp

theorem nested_tables_opaque_witness:
  "0 < tableLevel nestedAtRowMarker
   \<and> isRowOrder (src nestedTable) (it_pos (iter nestedAtRowMarker))
   \<and> rows (fst (scanBody defaultOpts nestedTable nestedAtRowMarker)) = []
   \<and> colStart (fst (scanBody defaultOpts nestedTable nestedAtRowMarker)) = None
   \<and> \<not> snd (scanBody defaultOpts nestedTable nestedAtRowMarker)"
proof -
  have lvl: "0 < tableLevel nestedAtRowMarker"
    by (simp add: nestedAtRowMarker_def)
  show ?thesis
    using nested_tables_opaque[OF lvl, of defaultOpts nestedTable] lvl nestedAtRowMarker_pass
    by simp
qed

section \<open>The closing fence\<close>








lemma matchingFence_open:
  "opensAt str p \<Longrightarrow> matchingFence str d p = matchingFence str (Suc d) (p + 2)"
  by (subst matchingFence.simps) (auto simp: opensAt_def charCodeAt_def split: if_splits)

lemma open_not_close: "opensAt str p \<Longrightarrow> \<not> closesAt str p"
  by (auto simp: opensAt_def closesAt_def hashChar_def pipeChar_def)

lemma matchingFence_close:
  "closesAt str p \<Longrightarrow>
   matchingFence str d p = (if d = 0 then Some p else matchingFence str (d - 1) (p + 2))"
  using open_not_close[of str p]
  by (subst matchingFence.simps) (auto simp: closesAt_def charCodeAt_def split: if_splits)

lemma matchingFence_step:
  "matchingFence str d p = matchingFence str d (p + 1)"
  if "\<not> opensAt str p" "\<not> closesAt str p" "0 \<le> p"
proof (cases "p < int (length str)")
  case True
  then show ?thesis using that by (subst matchingFence.simps) simp
next
  case False
  then have "matchingFence str d p = None" by (subst matchingFence.simps) simp
  moreover have "matchingFence str d (p + 1) = None" using False by (subst matchingFence.simps) simp
  ultimately show ?thesis by simp
qed



lemma fencesBalanced_matchingFence:
  "0 \<le> p \<Longrightarrow> fencesBalanced d (drop (nat p) str) = (matchingFence str d p \<noteq> None)"
proof (induction str d p rule: matchingFence.induct)
  case (1 str depth p)
  show ?case
  proof (cases "p < int (length str)")
    case False
    then have "matchingFence str depth p = None" by (subst matchingFence.simps) simp
    then show ?thesis using False by simp
  next
    case True
    note inside = True
    have range: "\<not> (p < 0 \<or> int (length str) \<le> p)"
      using inside "1.prems" by simp
    show ?thesis
    proof (cases "p + 1 < int (length str)")
      case False
      then have "Suc (nat p) = length str" using inside "1.prems" by linarith
      then have one: "drop (nat p) str = [str ! nat p]"
        using Cons_nth_drop_Suc[of "nat p" str] by simp
      have no: "\<not> opensAt str p" "\<not> closesAt str p"
        using False by (auto simp: opensAt_def closesAt_def charCodeAt_def)
      have "matchingFence str depth (p + 1) = None"
        using False by (subst matchingFence.simps) simp
      then have "matchingFence str depth p = None"
        using matchingFence_step[OF no "1.prems", of depth] by simp
      then show ?thesis by (simp add: one)
    next
      case True
      have n1: "nat (p + 1) = Suc (nat p)" and n2: "nat (p + 2) = Suc (Suc (nat p))"
        using "1.prems" by linarith+
      have lens: "Suc (nat p) < length str" using True "1.prems" by linarith
      have d1: "drop (Suc (nat p)) str = str ! Suc (nat p) # drop (Suc (Suc (nat p))) str"
        using Cons_nth_drop_Suc[OF lens] by simp
      have two: "drop (nat p) str = str ! nat p # str ! Suc (nat p) # drop (Suc (Suc (nat p))) str"
        using Cons_nth_drop_Suc[of "nat p" str] lens d1 by simp
      have o: "opensAt str p = (str ! nat p = hashChar \<and> str ! Suc (nat p) = pipeChar)"
        using True "1.prems" by (simp add: opensAt_def charCodeAt_def n1)
      have c: "closesAt str p = (str ! nat p = pipeChar \<and> str ! Suc (nat p) = hashChar)"
        using True "1.prems" by (simp add: closesAt_def charCodeAt_def n1)
      consider (op) "opensAt str p" | (cl) "\<not> opensAt str p" "closesAt str p"
        | (other) "\<not> opensAt str p" "\<not> closesAt str p" by blast
      then show ?thesis
      proof cases
        case op
        have ih: "fencesBalanced (Suc depth) (drop (Suc (Suc (nat p))) str)
            = (matchingFence str (Suc depth) (p + 2) \<noteq> None)"
          using "1.IH"(1)[OF range op] "1.prems" by (simp add: n2)
        have "fencesBalanced depth (drop (nat p) str)
            = fencesBalanced (Suc depth) (drop (Suc (Suc (nat p))) str)"
          using op by (simp add: two o)
        then show ?thesis using ih matchingFence_open[OF op, of depth] by simp
      next
        case cl
        show ?thesis
        proof (cases "depth = 0")
          case True
          have "fencesBalanced depth (drop (nat p) str)"
            using cl True by (simp add: two o c)
          then show ?thesis using matchingFence_close[OF cl(2), of depth] True by simp
        next
          case False
          have ih: "fencesBalanced (depth - 1) (drop (Suc (Suc (nat p))) str)
              = (matchingFence str (depth - 1) (p + 2) \<noteq> None)"
            using "1.IH"(2)[OF range cl False] "1.prems" by (simp add: n2)
          have "fencesBalanced depth (drop (nat p) str)
              = fencesBalanced (depth - 1) (drop (Suc (Suc (nat p))) str)"
            using cl False by (simp add: two o c)
          then show ?thesis using ih matchingFence_close[OF cl(2), of depth] False by simp
        qed
      next
        case other
        have ih: "fencesBalanced depth (drop (Suc (nat p)) str)
            = (matchingFence str depth (p + 1) \<noteq> None)"
          using "1.IH"(3)[OF range other] "1.prems" by (simp add: n1)
        have no: "\<not> (str ! nat p = hashChar \<and> str ! Suc (nat p) = pipeChar)"
          "\<not> (str ! nat p = pipeChar \<and> str ! Suc (nat p) = hashChar)"
          using other o c by simp_all
        have "fencesBalanced depth (str ! nat p # str ! Suc (nat p) # drop (Suc (Suc (nat p))) str)
            = fencesBalanced depth (str ! Suc (nat p) # drop (Suc (Suc (nat p))) str)"
          by (simp only: fencesBalanced.simps no if_False)
        then have "fencesBalanced depth (drop (nat p) str)
            = fencesBalanced depth (drop (Suc (nat p)) str)"
          by (metis two d1)
        then show ?thesis using ih matchingFence_step[OF other "1.prems", of depth] by simp
      qed
    qed
  qed
qed


















lemma fenceInCode_not_plain:
  "matchingFence (src fenceInCode) 0 2 = Some 13
   \<and> \<not> plainRegion defaultOpts fenceInCode 0 2 2 13"
  by code_simp


text \<open>
  A second input on which the statement fails: the fences of \<open>fenceAfterRowMarker\<close>
  are balanced, the text holds no inert region, and the scan ends without
  \<open>endOfTable\<close>, because the pipe of the closing fence is read as the second pipe of
  a row marker.
\<close>

lemma fenceAfterRowMarker_scan:
  "fencesBalanced 0 (drop 2 (src fenceAfterRowMarker))
   \<and> matchingFence (src fenceAfterRowMarker) 0 2 = Some 9
   \<and> rp_endOfTable (getTableRowPositions fenceAfterRowMarker (Some 0) (Some 11) 0 defaultOpts) = None
   \<and> \<not> fenceClearOfRowMarkers (src fenceAfterRowMarker) 2 9"
  by code_simp








section \<open>The inline code skipper\<close>

lemma closer_beyond_lineEnd:
  "skipInlineCode [96, 97, 10, 96] 0 (Some 2) = Some \<lparr>skip_end = 4, skip_steps = 4\<rparr>"
  by code_simp

lemma codeAcrossRows_skip:
  "skipInlineCode (src codeAcrossRows) 5 (Some 9) = Some \<lparr>skip_end = 13, skip_steps = 8\<rparr>"
  by code_simp

lemma codeAcrossRows_scan:
  "rp_rows (getTableRowPositions codeAcrossRows (Some 0) (Some 19) 0 inlineCodeOpts) =
     [(1, 2, [(\<lparr>line = 1, pos = Some 5\<rparr>, \<lparr>line = 2, pos = Some 14\<rparr>)])]"
  by code_simp

lemma codeAcrossRows_scan_default:
  "rp_rows (getTableRowPositions codeAcrossRows (Some 0) (Some 19) 0 defaultOpts) =
     [(1, 1, [(\<lparr>line = 1, pos = Some 5\<rparr>, \<lparr>line = 1, pos = Some 7\<rparr>)]),
      (2, 2, [(\<lparr>line = 2, pos = Some 12\<rparr>, \<lparr>line = 2, pos = Some 14\<rparr>)])]"
  by code_simp

text \<open>
  C5 fails on the code. In the source of a backtick, \<^verbatim>\<open>a\<close>, a line break and a
  backtick, with the line ending at index 2, the only closing backtick stands at index
  3, beyond the end of the line, and \<open>skipInlineCode\<close> still returns a match that
  ends at index 4: \<open>indexOf\<close> searches the whole source, and only the measuring of
  a run stops at \<open>max\<close>. The scanner makes such a call on \<open>codeAcrossRows\<close>, at
  the backtick of the first row (index 5, on the line that ends at index 9): the
  match ends at index 13, after the backtick of the second row, and the two rows come
  out as one cell.
\<close>

theorem skipInlineCode_matches_beyond_lineEnd:
  "skipInlineCode [96, 97, 10, 96] 0 (Some 2) = Some \<lparr>skip_end = 4, skip_steps = 4\<rparr>
   \<and> skipInlineCode (src codeAcrossRows) 5 (Some 9) = Some \<lparr>skip_end = 13, skip_steps = 8\<rparr>
   \<and> rp_rows (getTableRowPositions codeAcrossRows (Some 0) (Some 19) 0 inlineCodeOpts) =
       [(1, 2, [(\<lparr>line = 1, pos = Some 5\<rparr>, \<lparr>line = 2, pos = Some 14\<rparr>)])]
   \<and> rp_rows (getTableRowPositions codeAcrossRows (Some 0) (Some 19) 0 defaultOpts) =
       [(1, 1, [(\<lparr>line = 1, pos = Some 5\<rparr>, \<lparr>line = 1, pos = Some 7\<rparr>)]),
        (2, 2, [(\<lparr>line = 2, pos = Some 12\<rparr>, \<lparr>line = 2, pos = Some 14\<rparr>)])]"
  unfolding codeAcrossRows_scan codeAcrossRows_scan_default closer_beyond_lineEnd
    codeAcrossRows_skip
  by simp

section \<open>The inline math skipper\<close>

lemma find_append_none: "find P xs = None \<Longrightarrow> find P (xs @ ys) = find P ys"
  by (induction xs) (auto split: if_splits)

lemma find_upt_skip:
  assumes "\<And>j. a \<le> j \<Longrightarrow> j < b \<Longrightarrow> \<not> P j" and "a \<le> b" and "b \<le> n"
  shows "find P [a..<n] = find P [b..<n]"
proof -
  have "[a..<n] = [a..<b] @ [b..<n]"
    using assms(2,3) by (metis le_Suc_ex upt_add_eq_append)
  moreover have "find P [a..<b] = None"
    using assms(1) by (simp add: find_None_iff)
  ultimately show ?thesis by (simp add: find_append_none)
qed

lemma find_upt_hit: "P b \<Longrightarrow> b < n \<Longrightarrow> find P [b..<n] = Some b"
  by (simp add: upt_conv_Cons)

lemma find_upt_miss: "\<not> P b \<Longrightarrow> find P [b..<n] = find P [Suc b..<n]"
  by (cases "b < n") (simp_all add: upt_conv_Cons)

lemma find_upt_ge: "find P [a..<n] = Some f \<Longrightarrow> a \<le> f"
  by (auto simp: find_Some_iff)

lemma indexOf_none:
  "indexOf str c k = -1 \<Longrightarrow> find (\<lambda>i. str ! i = c \<and> Q i) [nat k..<length str] = None"
  by (auto simp: indexOf_def find_None_iff split: option.splits)

lemma indexOf_least:
  assumes "indexOf str c k = m" and "m \<noteq> -1"
  shows "nat k \<le> nat m \<and> nat m < length str \<and> 0 \<le> m \<and> str ! nat m = c
         \<and> (\<forall>j. nat k \<le> j \<and> j < nat m \<longrightarrow> str ! j \<noteq> c)"
proof -
  from assms obtain i where i: "find (\<lambda>i. str ! i = c) [nat k..<length str] = Some i" "m = int i"
    by (auto simp: indexOf_def split: option.splits)
  from i(1) obtain d where d: "d < length [nat k..<length str]" "str ! ([nat k..<length str] ! d) = c"
    "i = [nat k..<length str] ! d" "\<forall>j<d. str ! ([nat k..<length str] ! j) \<noteq> c"
    by (auto simp: find_Some_iff)
  have id: "i = nat k + d" "i < length str" using d(1,3) by auto
  have "str ! j \<noteq> c" if "nat k \<le> j" "j < i" for j
  proof -
    have "j - nat k < d" using that id by simp
    then have "str ! ([nat k..<length str] ! (j - nat k)) \<noteq> c" using d(4) by blast
    moreover have "[nat k..<length str] ! (j - nat k) = j"
      using that id by simp
    ultimately show ?thesis by simp
  qed
  moreover have "nat m = i" "0 \<le> m" using i(2) by simp_all
  moreover have "str ! i = c" using d(2,3) by simp
  ultimately show ?thesis using id by simp
qed

lemma mathLoop_first_candidate:
  "0 < k \<Longrightarrow>
   mathLoop str maxPos start k =
     (case firstUnescapedDollar str k of
        None \<Rightarrow> None
      | Some m \<Rightarrow>
          if num_gt (Some m) maxPos \<or> isSpaceOrTab (charCodeAt str (m - 1))
             \<or> isDigitCode (nextCharAt str maxPos m)
          then None
          else Some \<lparr>skip_end = m + 1, skip_steps = m + 1 - start\<rparr>)"
proof (induction str maxPos start k rule: mathLoop.induct)
  case (1 str maxPos start k)
  let ?P = "\<lambda>i. str ! i = dollarChar \<and> \<not> isEscaped str (int i)"
  define m where "m = indexOf str dollarChar k"
  show ?case
  proof (cases "m = -1")
    case True
    then have "firstUnescapedDollar str k = None"
      using indexOf_none[of str dollarChar k] by (simp add: m_def firstUnescapedDollar_def)
    moreover have "mathLoop str maxPos start k = None"
      using True by (subst mathLoop.simps) (simp add: m_def Let_def)
    ultimately show ?thesis by simp
  next
    case False
    note least = indexOf_least[OF m_def[symmetric] False]
    have mpos: "0 < m" using least "1.prems" by auto
    have skip: "find ?P [nat k..<length str] = find ?P [nat m..<length str]"
      using least by (intro find_upt_skip) auto
    show ?thesis
    proof (cases "num_gt (Some m) maxPos")
      case True
      have lhs: "mathLoop str maxPos start k = None"
        using True by (subst mathLoop.simps) (simp add: m_def Let_def)
      show ?thesis
      proof (cases "firstUnescapedDollar str k")
        case None
        then show ?thesis using lhs by simp
      next
        case (Some f)
        then obtain i where i: "find ?P [nat m..<length str] = Some i" "f = int i"
          using skip by (auto simp: firstUnescapedDollar_def)
        then have "m \<le> f" using find_upt_ge[OF i(1)] by simp
        then have "num_gt (Some f) maxPos"
          using True by (auto simp: num_gt_def split: option.splits)
        then show ?thesis using lhs Some by simp
      qed
    next
      case inside: False
      show ?thesis
      proof (cases "isEscaped str m")
        case True
        have "mathLoop str maxPos start k = mathLoop str maxPos start (m + 1)"
          using True inside False mpos by (subst mathLoop.simps) (simp add: m_def Let_def)
        also have "\<dots> = (case firstUnescapedDollar str (m + 1) of
            None \<Rightarrow> None
          | Some m \<Rightarrow>
              if num_gt (Some m) maxPos \<or> isSpaceOrTab (charCodeAt str (m - 1))
                 \<or> isDigitCode (nextCharAt str maxPos m)
              then None
              else Some \<lparr>skip_end = m + 1, skip_steps = m + 1 - start\<rparr>)"
          using "1.IH"[OF m_def] mpos False inside True by simp
        also have "firstUnescapedDollar str (m + 1) = firstUnescapedDollar str k"
        proof -
          have "\<not> ?P (nat m)" using True least by simp
          then have "find ?P [nat m..<length str] = find ?P [Suc (nat m)..<length str]"
            by (rule find_upt_miss)
          moreover have "nat (m + 1) = Suc (nat m)" using mpos by arith
          ultimately show ?thesis using skip by (simp add: firstUnescapedDollar_def)
        qed
        finally show ?thesis .
      next
        case unescaped: False
        have "?P (nat m)" using unescaped least by simp
        then have "find ?P [nat m..<length str] = Some (nat m)"
          using least by (intro find_upt_hit) auto
        then have first: "firstUnescapedDollar str k = Some m"
          using skip least by (simp add: firstUnescapedDollar_def)
        have "mathLoop str maxPos start k =
            (if isSpaceOrTab (charCodeAt str (m - 1)) \<or> isDigitCode (nextCharAt str maxPos m)
             then None else Some \<lparr>skip_end = m + 1, skip_steps = m + 1 - start\<rparr>)"
          using unescaped inside False mpos
          by (subst mathLoop.simps) (simp add: m_def[symmetric] Let_def isSpaceOrTab_def)
        then show ?thesis using first inside by simp
      qed
    qed
  qed
qed


lemma laterCloser_facts:
  "charCodeAt (codes ''$a $ b$'') 0 = Some dollarChar"
  "\<not> isEscaped (codes ''$a $ b$'') 0"
  "\<not> isSpaceOrTab (nextCharAt (codes ''$a $ b$'') (Some 7) 0)"
  "nextCharAt (codes ''$a $ b$'') (Some 7) 0 \<noteq> Some dollarChar"
  "validMathCloser (codes ''$a $ b$'') 0 (Some 7) 6"
  "skipInlineMath (codes ''$a $ b$'') 0 (Some 7) = None"
  by code_simp+

text \<open>
  C6 as stated fails: in \<^verbatim>\<open>$a $ b$\<close> the dollar sign at index 0 is unescaped and not
  followed by whitespace or another dollar sign, and the dollar sign at index 6 is an
  unescaped closer, not preceded by whitespace and not followed by a digit; still
  \<open>skipInlineMath\<close> returns no match, because the dollar sign at index 3 comes first
  and follows a space.
\<close>

theorem skipInlineMath_ignores_later_closer:
  "charCodeAt (codes ''$a $ b$'') 0 = Some dollarChar
   \<and> \<not> isEscaped (codes ''$a $ b$'') 0
   \<and> \<not> isSpaceOrTab (nextCharAt (codes ''$a $ b$'') (Some 7) 0)
   \<and> nextCharAt (codes ''$a $ b$'') (Some 7) 0 \<noteq> Some dollarChar
   \<and> validMathCloser (codes ''$a $ b$'') 0 (Some 7) 6
   \<and> skipInlineMath (codes ''$a $ b$'') 0 (Some 7) = None"
  using laterCloser_facts by simp

text \<open>
  C6, amended. At an unescaped dollar sign that is not followed by a space or a tab,
  \<open>skipInlineMath\<close> returns a skip of 2 code units when the next code unit is a dollar
  sign. Otherwise the only candidate closer is the first unescaped dollar sign after
  the position: there is a match, ending just after the candidate, exactly when the
  candidate exists, is not beyond \<open>max\<close>, does not follow a space or a tab and is
  not followed by a digit.
\<close>

theorem skipInlineMath_first_candidate:
  assumes "charCodeAt str p = Some dollarChar"
    and "\<not> isEscaped str p"
    and "\<not> isSpaceOrTab (nextCharAt str maxPos p)"
  shows "(nextCharAt str maxPos p = Some dollarChar \<longrightarrow>
            skipInlineMath str p maxPos = Some \<lparr>skip_end = p + 2, skip_steps = 2\<rparr>)
     \<and> (nextCharAt str maxPos p \<noteq> Some dollarChar \<longrightarrow>
            map_option skip_end (skipInlineMath str p maxPos) =
              (case firstUnescapedDollar str (p + 1) of
                 None \<Rightarrow> None
               | Some m \<Rightarrow>
                   if num_gt (Some m) maxPos \<or> isSpaceOrTab (charCodeAt str (m - 1))
                      \<or> isDigitCode (nextCharAt str maxPos m)
                   then None
                   else Some (m + 1)))"
proof -
  have p0: "0 \<le> p" using assms(1) by (simp add: charCodeAt_def split: if_splits)
  have "skipInlineMath str p maxPos =
      (if nextCharAt str maxPos p = Some dollarChar then Some \<lparr>skip_end = p + 2, skip_steps = 2\<rparr>
       else mathLoop str maxPos (p + 1) (p + 1))"
    using assms by (auto simp: skipInlineMath_def Let_def notEscaped_def isSpaceOrTab_def)
  moreover have "mathLoop str maxPos (p + 1) (p + 1) =
     (case firstUnescapedDollar str (p + 1) of
        None \<Rightarrow> None
      | Some m \<Rightarrow>
          if num_gt (Some m) maxPos \<or> isSpaceOrTab (charCodeAt str (m - 1))
             \<or> isDigitCode (nextCharAt str maxPos m)
          then None
          else Some \<lparr>skip_end = m + 1, skip_steps = m + 1 - (p + 1)\<rparr>)"
    using p0 by (intro mathLoop_first_candidate) simp
  ultimately show ?thesis by (auto split: option.splits)
qed

lemma mathSpan_facts:
  "charCodeAt (codes ''$a b$ c'') 0 = Some dollarChar"
  "\<not> isEscaped (codes ''$a b$ c'') 0"
  "\<not> isSpaceOrTab (nextCharAt (codes ''$a b$ c'') (Some 7) 0)"
  "nextCharAt (codes ''$a b$ c'') (Some 7) 0 \<noteq> Some dollarChar"
  "firstUnescapedDollar (codes ''$a b$ c'') (0 + 1) = Some 4"
  "\<not> num_gt (Some 4) (Some 7)"
  "\<not> isSpaceOrTab (charCodeAt (codes ''$a b$ c'') (4 - 1))"
  "\<not> isDigitCode (nextCharAt (codes ''$a b$ c'') (Some 7) 4)"
  by code_simp+

lemma mathBlock_facts:
  "charCodeAt (codes ''$$x'') 0 = Some dollarChar"
  "\<not> isEscaped (codes ''$$x'') 0"
  "\<not> isSpaceOrTab (nextCharAt (codes ''$$x'') (Some 3) 0)"
  "nextCharAt (codes ''$$x'') (Some 3) 0 = Some dollarChar"
  by code_simp+

theorem skipInlineMath_first_candidate_witness:
  "map_option skip_end (skipInlineMath (codes ''$a b$ c'') 0 (Some 7)) = Some 5
   \<and> skipInlineMath (codes ''$$x'') 0 (Some 3) = Some \<lparr>skip_end = 2, skip_steps = 2\<rparr>"
  using skipInlineMath_first_candidate[OF mathSpan_facts(1-3)]
    skipInlineMath_first_candidate[OF mathBlock_facts(1-3)]
    mathSpan_facts(4-8) mathBlock_facts(4)
  by simp

section \<open>Compaction\<close>
















section \<open>The unterminated table\<close>

lemma push_fields [simp]:
  "tShift (push ty tg n state) = tShift state"
  "bMarks (push ty tg n state) = bMarks state"
  "eMarks (push ty tg n state) = eMarks state"
  "lineMax (push ty tg n state) = lineMax state"
  "src (push ty tg n state) = src state"
  by (simp_all add: push_def Let_def)

lemma updateLast_fields [simp]:
  "tShift (updateLast f state) = tShift state"
  "bMarks (updateLast f state) = bMarks state"
  "eMarks (updateLast f state) = eMarks state"
  "lineMax (updateLast f state) = lineMax state"
  "src (updateLast f state) = src state"
  "state_level (updateLast f state) = state_level state"
  by (simp_all add: updateLast_def)

lemma arr_get_set: "arr_get (arr_set xs i v) j = (if j = i then v else arr_get xs j)"
  by (auto simp: arr_get_def arr_set_def nth_append)

lemma arr_set_restore: "i < length xs \<Longrightarrow> arr_set (arr_set xs i v) i (arr_get xs i) = xs"
  by (simp add: arr_get_def arr_set_def)







section \<open>The line index around a cell\<close>

text \<open>
  C9. After a cell has been processed, \<open>tShift\<close> and \<open>bMarks\<close> at the first line of
  the cell, \<open>eMarks\<close> at its last line and \<open>lineMax\<close> hold the values they had
  before, whatever the host's tokenizer did. When the host's tokenizer leaves the line
  index as it finds it, every line reads as before, and the three arrays are the same
  lists when the lines of the cell lie inside them.
\<close>

theorem cell_tokenization_restores_line_index:
  assumes "processCell host (begin, ending) bs = Some bs'"
  shows "arr_get (tShift (bs_state bs')) (line begin) = arr_get (tShift (bs_state bs)) (line begin)
     \<and> arr_get (bMarks (bs_state bs')) (line begin) = arr_get (bMarks (bs_state bs)) (line begin)
     \<and> arr_get (eMarks (bs_state bs')) (line ending) = arr_get (eMarks (bs_state bs)) (line ending)
     \<and> lineMax (bs_state bs') = lineMax (bs_state bs)
     \<and> (linesUntouchedBy host \<longrightarrow>
          (\<forall>l. arr_get (tShift (bs_state bs')) l = arr_get (tShift (bs_state bs)) l
              \<and> arr_get (bMarks (bs_state bs')) l = arr_get (bMarks (bs_state bs)) l
              \<and> arr_get (eMarks (bs_state bs')) l = arr_get (eMarks (bs_state bs)) l)
          \<and> (line begin < length (tShift (bs_state bs)) \<longrightarrow> tShift (bs_state bs') = tShift (bs_state bs))
          \<and> (line begin < length (bMarks (bs_state bs)) \<longrightarrow> bMarks (bs_state bs') = bMarks (bs_state bs))
          \<and> (line ending < length (eMarks (bs_state bs)) \<longrightarrow> eMarks (bs_state bs') = eMarks (bs_state bs)))"
proof -
  define s2 where "s2 = updateLast (\<lambda>t. t\<lparr>tok_map := Some (int (line begin), int (line ending))\<rparr>)
      (push ''yfm_td_open'' ''td'' 1 (bs_state bs))"
  define s3 where "s3 = tokenize host (overrideLines begin ending s2) (line begin) (line ending + 1)"
  define s5 where "s5 = updateLast (\<lambda>t. t\<lparr>tok_map := Some (int (line ending), int (line ending) + 1)\<rparr>)
      (push ''yfm_td_close'' ''td'' (-1) s3)"
  define s6 where "s6 = restoreLines begin ending (arr_get (tShift s2) (line begin))
      (arr_get (bMarks s2) (line begin)) (arr_get (eMarks s2) (line ending)) (lineMax s2) s5"
  have s2: "tShift s2 = tShift (bs_state bs)" "bMarks s2 = bMarks (bs_state bs)"
    "eMarks s2 = eMarks (bs_state bs)" "lineMax s2 = lineMax (bs_state bs)"
    by (simp_all add: s2_def)
  have s5: "tShift s5 = tShift s3" "bMarks s5 = bMarks s3" "eMarks s5 = eMarks s3"
    by (simp_all add: s5_def)
  obtain toks where bs': "bs_state bs' = s6\<lparr>tokens := toks\<rparr>"
    using assms
    by (auto simp: processCell_def Let_def s2_def s3_def s5_def s6_def split: if_splits)
  have s6: "tShift s6 = arr_set (tShift s3) (line begin) (arr_get (tShift (bs_state bs)) (line begin))"
    "bMarks s6 = arr_set (bMarks s3) (line begin) (arr_get (bMarks (bs_state bs)) (line begin))"
    "eMarks s6 = arr_set (eMarks s3) (line ending) (arr_get (eMarks (bs_state bs)) (line ending))"
    "lineMax s6 = lineMax (bs_state bs)"
    by (simp_all add: s6_def restoreLines_def Let_def s2 s5)
  have slots: "arr_get (tShift (bs_state bs')) (line begin) = arr_get (tShift (bs_state bs)) (line begin)
     \<and> arr_get (bMarks (bs_state bs')) (line begin) = arr_get (bMarks (bs_state bs)) (line begin)
     \<and> arr_get (eMarks (bs_state bs')) (line ending) = arr_get (eMarks (bs_state bs)) (line ending)
     \<and> lineMax (bs_state bs') = lineMax (bs_state bs)"
    by (simp add: bs' s6 arr_get_set)
  have frame: "(\<forall>l. arr_get (tShift (bs_state bs')) l = arr_get (tShift (bs_state bs)) l
              \<and> arr_get (bMarks (bs_state bs')) l = arr_get (bMarks (bs_state bs)) l
              \<and> arr_get (eMarks (bs_state bs')) l = arr_get (eMarks (bs_state bs)) l)
          \<and> (line begin < length (tShift (bs_state bs)) \<longrightarrow> tShift (bs_state bs') = tShift (bs_state bs))
          \<and> (line begin < length (bMarks (bs_state bs)) \<longrightarrow> bMarks (bs_state bs') = bMarks (bs_state bs))
          \<and> (line ending < length (eMarks (bs_state bs)) \<longrightarrow> eMarks (bs_state bs') = eMarks (bs_state bs))"
    if "linesUntouchedBy host"
  proof -
    have s3: "tShift s3 = arr_set (tShift (bs_state bs)) (line begin) (Some 0)"
      "bMarks s3 = arr_set (bMarks (bs_state bs)) (line begin) (pos begin)"
      "eMarks s3 = arr_set (eMarks (bs_state bs)) (line ending) (pos ending)"
      using that by (simp_all add: linesUntouchedBy_def s3_def overrideLines_def s2)
    show ?thesis
      by (simp add: bs' s6 s3 arr_get_set arr_set_restore)
  qed
  show ?thesis using slots frame by blast
qed

lemma paragraphHost_untouched: "linesUntouchedBy paragraphHost"
  by (simp add: linesUntouchedBy_def paragraphHost_def)

lemma rowOpened_cell: "processCell paragraphHost cellOfRow rowOpened \<noteq> None"
  by code_simp

theorem cell_tokenization_restores_line_index_witness:
  "linesUntouchedBy paragraphHost
   \<and> tShift (bs_state (the (processCell paragraphHost cellOfRow rowOpened))) = tShift rowOnLine1
   \<and> bMarks (bs_state (the (processCell paragraphHost cellOfRow rowOpened))) = bMarks rowOnLine1
   \<and> eMarks (bs_state (the (processCell paragraphHost cellOfRow rowOpened))) = eMarks rowOnLine1
   \<and> lineMax (bs_state (the (processCell paragraphHost cellOfRow rowOpened))) = lineMax rowOnLine1"
proof -
  obtain bs' where bs': "processCell paragraphHost (\<lparr>line = 1, pos = Some 5\<rparr>, \<lparr>line = 1, pos = Some 8\<rparr>) rowOpened = Some bs'"
    using rowOpened_cell by (auto simp: cellOfRow_def)
  have len: "line \<lparr>line = 1, pos = Some 5\<rparr> < length (tShift (bs_state rowOpened))"
    "line \<lparr>line = 1, pos = Some 5\<rparr> < length (bMarks (bs_state rowOpened))"
    "line \<lparr>line = 1, pos = Some 8\<rparr> < length (eMarks (bs_state rowOpened))"
    by (simp_all add: rowOpened_def rowOnLine1_def hostState_def)
  show ?thesis
    using cell_tokenization_restores_line_index[OF bs'] paragraphHost_untouched len bs'
    by (simp add: cellOfRow_def rowOpened_def)
qed

section \<open>The content map\<close>

text \<open>
  For every host, the rows of the content map are as long as the rows the scanner
  found: the tree builder adds one text per scanned cell and none for the padding.
\<close>

lemma processCell_contentMap:
  assumes "processCell host cell bs = Some bs'"
  shows "contentMap bs \<noteq> [] \<and> (\<exists>x. contentMap bs' = butlast (contentMap bs) @ [last (contentMap bs) @ [x]])"
  using assms
  by (auto simp: processCell_def Let_def pushLastRow_def split: if_splits)

lemma forEach_processCell_contentMap:
  "forEach (processCell host) cols bs = Some bs' \<Longrightarrow> contentMap bs \<noteq> [] \<Longrightarrow>
   \<exists>xs. length xs = length cols
        \<and> contentMap bs' = butlast (contentMap bs) @ [last (contentMap bs) @ xs]"
proof (induction cols arbitrary: bs)
  case Nil
  then show ?case by (intro exI[of _ "[]"]) simp
next
  case (Cons c cols)
  from Cons.prems(1) obtain bs1 where bs1: "processCell host c bs = Some bs1"
    "forEach (processCell host) cols bs1 = Some bs'"
    by (auto split: option.splits)
  from processCell_contentMap[OF bs1(1)] obtain x where
    x: "contentMap bs1 = butlast (contentMap bs) @ [last (contentMap bs) @ [x]]" by blast
  then have ne: "contentMap bs1 \<noteq> []" by simp
  from Cons.IH[OF bs1(2) ne] obtain xs where xs: "length xs = length cols"
    "contentMap bs' = butlast (contentMap bs1) @ [last (contentMap bs1) @ xs]" by blast
  have "contentMap bs' = butlast (contentMap bs) @ [last (contentMap bs) @ (x # xs)]"
    using xs(2) x by simp
  then show ?case using xs(1) by (intro exI[of _ "x # xs"]) simp
qed

lemma processRow_contentMap:
  assumes "processRow host m row bs = Some bs'"
  shows "\<exists>xs. length xs = length (snd (snd row)) \<and> contentMap bs' = contentMap bs @ [xs]"
proof -
  obtain a b cols where row: "row = (a, b, cols)" by (cases row)
  define bs1 where "bs1 = \<lparr>bs_state = updateLast (\<lambda>t. t\<lparr>tok_map := Some (int a, int b)\<rparr>)
       (push ''yfm_tr_open'' ''tr'' 1 (bs_state bs)),
     cellsMap = cellsMap bs @ [[]], contentMap = contentMap bs @ [[]]\<rparr>"
  from assms obtain bs2 where bs2: "forEach (processCell host) cols bs1 = Some bs2"
    "contentMap bs' = contentMap bs2"
    by (auto simp: processRow_def row Let_def bs1_def split: option.splits)
  have "contentMap bs1 \<noteq> []" by (simp add: bs1_def)
  from forEach_processCell_contentMap[OF bs2(1) this] obtain xs where
    "length xs = length cols" "contentMap bs2 = butlast (contentMap bs1) @ [last (contentMap bs1) @ xs]"
    by blast
  then show ?thesis using bs2(2) by (simp add: bs1_def row)
qed

lemma forEach_processRow_contentMap:
  "forEach (processRow host m) rs bs = Some bs' \<Longrightarrow>
   map length (contentMap bs') = map length (contentMap bs) @ map (\<lambda>row. length (snd (snd row))) rs"
proof (induction rs arbitrary: bs)
  case Nil
  then show ?case by simp
next
  case (Cons r rs)
  from Cons.prems obtain bs1 where bs1: "processRow host m r bs = Some bs1"
    "forEach (processRow host m) rs bs1 = Some bs'"
    by (auto split: option.splits)
  from processRow_contentMap[OF bs1(1)] obtain xs where
    "length xs = length (snd (snd r))" "contentMap bs1 = contentMap bs @ [xs]" by blast
  then show ?case using Cons.IH[OF bs1(2)] by simp
qed

lemma contentMap_row_lengths:
  "buildRows host rs state = Some bs \<Longrightarrow>
   map length (contentMap bs) = map (\<lambda>row. length (snd (snd row))) rs"
  using forEach_processRow_contentMap[of host "maxRowLengthOf rs" rs
      "\<lparr>bs_state = state, cellsMap = [], contentMap = []\<rparr>" bs]
  by (simp add: buildRows_def)

lemma raggedTable_rows:
  "rp_rows (getTableRowPositions raggedTable (Some 0) (Some 25) 0 defaultOpts) =
    [(1, 1, [(\<lparr>line = 1, pos = Some 5\<rparr>, \<lparr>line = 1, pos = Some 8\<rparr>)]),
     (2, 2,
      [(\<lparr>line = 2, pos = Some 13\<rparr>, \<lparr>line = 2, pos = Some 16\<rparr>),
       (\<lparr>line = 2, pos = Some 17\<rparr>, \<lparr>line = 2, pos = Some 20\<rparr>)])]"
  by code_simp

lemma raggedTable_contentMap:
  "map_option contentMap
     (buildRows paragraphHost
        [(1, 1, [(\<lparr>line = 1, pos = Some 5\<rparr>, \<lparr>line = 1, pos = Some 8\<rparr>)]),
         (2, 2,
          [(\<lparr>line = 2, pos = Some 13\<rparr>, \<lparr>line = 2, pos = Some 16\<rparr>),
           (\<lparr>line = 2, pos = Some 17\<rparr>, \<lparr>line = 2, pos = Some 20\<rparr>)])]
        (openTable 0 5 [] raggedTable))
     = Some [[''a''], [''b'', ''>'']]"
  by code_simp

lemma raggedTable_visited: "visited [[''a''], [''b'', ''>'']] = [(0, 0), (1, 0)]"
  by code_simp

lemma raggedTable_outline:
  "map_option (outline \<circ> fst) (yfmTable paragraphHost defaultOpts raggedTable 0 4 False) =
     Some [(''yfm_table_open'', [], []), (''yfm_tbody_open'', [], []),
           (''yfm_tr_open'', [], []),
           (''yfm_td_open'', [], []), (''paragraph_open'', [], []), (''inline'', [], ''a''),
           (''paragraph_close'', [], []), (''yfm_td_close'', [], []),
           (''yfm_td_open'', [], []), (''yfm_td_close'', [], []),
           (''yfm_tr_close'', [], []),
           (''yfm_tr_open'', [], []),
           (''yfm_td_open'', [], []), (''paragraph_open'', [], []), (''inline'', [], ''b''),
           (''paragraph_close'', [], []), (''yfm_td_close'', [], []),
           (''yfm_td_open'', [], []), (''paragraph_open'', [], []), (''inline'', [], ''>''),
           (''paragraph_close'', [], []), (''yfm_td_close'', [], []),
           (''yfm_tr_close'', [], []),
           (''yfm_tbody_close'', [], []), (''yfm_table_close'', [], [])]"
  by code_simp

lemma rowspanUnderShortRow_throws:
  "yfmTable paragraphHost defaultOpts rowspanUnderShortRow 0 5 False = None"
  by code_simp

text \<open>
  C7 fails on the code. The rows of \<open>raggedTable\<close> have one and two cells, and the
  content map handed to the span resolver has rows of one and two texts: only the
  element stream is padded (\<open>contentMap_row_lengths\<close> above, for every host). The resolver takes the width of the first row for every
  row, so it never visits the coordinate (1, 1), and the colspan sentinel there stays
  a cell of its own with no \<open>colspan\<close> set. In \<open>rowspanUnderShortRow\<close> the scan
  upward from the rowspan sentinel reads beyond the end of the short row and the
  build ends in a \<open>TypeError\<close>.
\<close>

theorem contentMap_is_not_padded:
  "map_option contentMap
     (buildRows paragraphHost
        (rp_rows (getTableRowPositions raggedTable (Some 0) (Some 25) 0 defaultOpts))
        (openTable 0 5 [] raggedTable))
     = Some [[''a''], [''b'', ''>'']]
   \<and> maxRowLengthOf (rp_rows (getTableRowPositions raggedTable (Some 0) (Some 25) 0 defaultOpts)) = 2
   \<and> visited [[''a''], [''b'', ''>'']] = [(0, 0), (1, 0)]
   \<and> map_option (outline \<circ> fst) (yfmTable paragraphHost defaultOpts raggedTable 0 4 False) =
     Some [(''yfm_table_open'', [], []), (''yfm_tbody_open'', [], []),
           (''yfm_tr_open'', [], []),
           (''yfm_td_open'', [], []), (''paragraph_open'', [], []), (''inline'', [], ''a''),
           (''paragraph_close'', [], []), (''yfm_td_close'', [], []),
           (''yfm_td_open'', [], []), (''yfm_td_close'', [], []),
           (''yfm_tr_close'', [], []),
           (''yfm_tr_open'', [], []),
           (''yfm_td_open'', [], []), (''paragraph_open'', [], []), (''inline'', [], ''b''),
           (''paragraph_close'', [], []), (''yfm_td_close'', [], []),
           (''yfm_td_open'', [], []), (''paragraph_open'', [], []), (''inline'', [], ''>''),
           (''paragraph_close'', [], []), (''yfm_td_close'', [], []),
           (''yfm_tr_close'', [], []),
           (''yfm_tbody_close'', [], []), (''yfm_table_close'', [], [])]
   \<and> yfmTable paragraphHost defaultOpts rowspanUnderShortRow 0 5 False = None"
proof -
  have width: "maxRowLengthOf
      [(1, 1, [(\<lparr>line = 1, pos = Some 5\<rparr>, \<lparr>line = 1, pos = Some 8\<rparr>)]),
       (2, 2,
        [(\<lparr>line = 2, pos = Some 13\<rparr>, \<lparr>line = 2, pos = Some 16\<rparr>),
         (\<lparr>line = 2, pos = Some 17\<rparr>, \<lparr>line = 2, pos = Some 20\<rparr>)])] = 2"
    by (simp add: maxRowLengthOf_def)
  show ?thesis
    unfolding raggedTable_rows raggedTable_contentMap raggedTable_visited raggedTable_outline
      rowspanUnderShortRow_throws width
    by simp
qed

end
